theory Spec2Isabelle
  imports Main "HOL-Library.Stream"
begin

section \<open>The environment of the logger\<close>

text \<open>
  The program of \<^verbatim>\<open>src/system/Diagnostics.h\<close> talks to three things outside itself:
  the system clock (through \<^verbatim>\<open>time\<close>, \<^verbatim>\<open>localtime\<close> and \<^verbatim>\<open>strftime\<close>), the file system
  (through \<^verbatim>\<open>std::filesystem\<close> and \<^verbatim>\<open>std::ofstream\<close>) and the standard error stream.
  They are the fields of one record, the world, which every operation takes and returns.
\<close>

subsection \<open>Broken-down time\<close>

text \<open>
  The fields of C's \<^verbatim>\<open>struct tm\<close> that the two format strings read. As in C, the month
  counts from 0 and the year from 1900.
\<close>

record tm =
  tm_sec :: int
  tm_min :: int
  tm_hour :: int
  tm_mday :: int
  tm_mon :: int
  tm_year :: int

text \<open>
  What \<^verbatim>\<open>localtime\<close> promises about the fields it fills in (ISO C, 7.27.1): the seconds
  may be 60 at a leap second. The year has no bound of its own.
\<close>

definition tm_in_range :: "tm \<Rightarrow> bool" where
  "tm_in_range t =
     (0 \<le> tm_sec t \<and> tm_sec t \<le> 60 \<and>
      0 \<le> tm_min t \<and> tm_min t \<le> 59 \<and>
      0 \<le> tm_hour t \<and> tm_hour t \<le> 23 \<and>
      1 \<le> tm_mday t \<and> tm_mday t \<le> 31 \<and>
      0 \<le> tm_mon t \<and> tm_mon t \<le> 11)"

subsection \<open>Paths, files and the world\<close>

text \<open>
  An absolute path is the list of its components below the root; the root is the empty
  list. \<^verbatim>\<open>p / "log"\<close> appends a component and \<^verbatim>\<open>p.parent_path()\<close> drops the last one
  (the root is its own parent).
\<close>

type_synonym path = "string list"

definition path_append :: "path \<Rightarrow> string \<Rightarrow> path" where
  "path_append p name = p @ [name]"

definition parent_path :: "path \<Rightarrow> path" where
  "parent_path p = butlast p"

datatype node = Dir | File string

text \<open>
  \<open>fsys\<close> maps a path to what is stored there; \<open>locked\<close> holds the paths on which
  the process has no write permission (no entry can be made in a locked directory, a
  locked file cannot be opened for writing); \<open>clock\<close> is the sequence of local times
  that successive readings of the system clock return; \<open>stderr\<close> is the list of lines
  written to the standard error stream, one element for each \<^verbatim>\<open>cerr << ... << endl\<close>.

  A \<^verbatim>\<open>std::ofstream\<close> keeps what is written to it in a buffer of its own and hands it
  to the file when the stream is closed, or earlier when the library sees fit (the buffer
  is full); how large the buffer is and how much of it is handed over is the library's
  matter. \<open>drain buf data\<close> is that choice: the number of bytes, counted from the front
  of what is pending, that go to the file at once when \<open>data\<close> is put into a stream
  whose buffer holds \<open>buf\<close>. Nothing is assumed about it.
\<close>

record world =
  cwd :: path
  fsys :: "path \<Rightarrow> node option"
  locked :: "path set"
  clock :: "tm stream"
  stderr :: "string list"
  drain :: "string \<Rightarrow> string \<Rightarrow> nat"

datatype errc = not_a_directory | permission_denied

datatype error = filesystem_error errc

text \<open>
  A call that may throw returns either the exception or its value, and the world it
  leaves behind in both cases.
\<close>

type_synonym 'a result = "(error + 'a) \<times> world"

subsection \<open>The C library: decimal output and strftime\<close>

definition digit_char :: "nat \<Rightarrow> char" where
  "digit_char d = ''0123456789'' ! (d mod 10)"

fun dec_nat :: "nat \<Rightarrow> string" where
  "dec_nat n = (if n < 10 then [digit_char n] else dec_nat (n div 10) @ [digit_char (n mod 10)])"

declare dec_nat.simps [simp del]

definition dec_int :: "int \<Rightarrow> string" where
  "dec_int i = (if i < 0 then CHR ''-'' # dec_nat (nat (- i)) else dec_nat (nat i))"

text \<open>A number in at least two digits, zero-padded: \<^verbatim>\<open>%m %d %H %M %S\<close>.\<close>

definition pad2 :: "int \<Rightarrow> string" where
  "pad2 i = (if 0 \<le> i \<and> i < 10 then CHR ''0'' # dec_int i else dec_int i)"

text \<open>
  The conversion specifiers the program uses, as ISO C describes them. \<^verbatim>\<open>%Y\<close> is the
  year as a decimal number, \<^verbatim>\<open>%m\<close> the month counted from 1. Any other specifier is
  not used by the program and yields nothing here. The fields of \<^verbatim>\<open>struct tm\<close> are C
  \<^verbatim>\<open>int\<close>s, so neither format fills the program's buffer of 80 characters, and the
  buffer is left out.
\<close>

definition conversion :: "char \<Rightarrow> tm \<Rightarrow> string" where
  "conversion c t =
     (if c = CHR ''Y'' then dec_int (tm_year t + 1900)
      else if c = CHR ''m'' then pad2 (tm_mon t + 1)
      else if c = CHR ''d'' then pad2 (tm_mday t)
      else if c = CHR ''H'' then pad2 (tm_hour t)
      else if c = CHR ''M'' then pad2 (tm_min t)
      else if c = CHR ''S'' then pad2 (tm_sec t)
      else [])"

fun strftime :: "string \<Rightarrow> tm \<Rightarrow> string" where
  "strftime [] t = []"
| "strftime (c # d # fmt) t =
     (if c = CHR ''%'' then conversion d t @ strftime fmt t else c # strftime (d # fmt) t)"
| "strftime [c] t = [c]"

subsection \<open>The system clock\<close>

text \<open>
  \<^verbatim>\<open>time(NULL)\<close> followed by \<^verbatim>\<open>localtime\<close>: the next reading of the clock. Reading
  moves the clock on to the reading after it and touches nothing else. Two readings may
  differ: time passes between two calls. (Both library calls are taken to succeed, as the
  source takes them: it tests neither result.)
\<close>

definition read_clock :: "world \<Rightarrow> tm \<times> world" where
  "read_clock w = (shd (clock w), w\<lparr>clock := stl (clock w)\<rparr>)"

subsection \<open>The file system and the streams\<close>

text \<open>
  \<^verbatim>\<open>fs::create_directories\<close>: nothing to do when the path is a directory already;
  otherwise walk down the path from the directory \<open>pre\<close>; a component
  that is a directory is entered, one that is a file stops the walk with an exception, a
  missing one is made if its parent admits it. The overload without an
  \<^verbatim>\<open>error_code\<close> throws \<^verbatim>\<open>filesystem_error\<close>.
\<close>

fun create_dirs_from :: "path \<Rightarrow> string list \<Rightarrow> world \<Rightarrow> unit result" where
  "create_dirs_from pre [] w = (Inr (), w)"
| "create_dirs_from pre (c # cs) w =
     (case fsys w (pre @ [c]) of
        Some Dir \<Rightarrow> create_dirs_from (pre @ [c]) cs w
      | Some (File content) \<Rightarrow> (Inl (filesystem_error not_a_directory), w)
      | None \<Rightarrow>
          if fsys w pre = Some Dir \<and> pre \<notin> locked w
          then create_dirs_from (pre @ [c]) cs (w\<lparr>fsys := (fsys w)(pre @ [c] \<mapsto> Dir)\<rparr>)
          else (Inl (filesystem_error permission_denied), w))"

definition create_directories :: "path \<Rightarrow> world \<Rightarrow> unit result" where
  "create_directories p w =
     (if fsys w p = Some Dir then (Inr (), w) else create_dirs_from [] p w)"

text \<open>
  A \<^verbatim>\<open>std::ofstream\<close> is either closed or open on a path, and an open stream holds
  the bytes written to it that have not reached the file yet. \<^verbatim>\<open>open(p, ios::app)\<close>
  fails on a stream that is open already; otherwise it opens an existing file that is not
  locked (keeping what it holds), makes an empty file where none is and the directory
  admits it, and fails in every other case. A failed open throws nothing: the stream
  stays closed.
\<close>

type_synonym ofstream = "(path \<times> string) option"

definition is_open :: "ofstream \<Rightarrow> bool" where
  "is_open s = (s \<noteq> None)"

text \<open>The path an open stream is open on.\<close>

definition target :: "ofstream \<Rightarrow> path option" where
  "target s = map_option fst s"

definition openable :: "path \<Rightarrow> world \<Rightarrow> bool" where
  "openable p w =
     (case fsys w p of
        Some (File content) \<Rightarrow> p \<notin> locked w
      | Some Dir \<Rightarrow> False
      | None \<Rightarrow> p \<noteq> [] \<and> fsys w (butlast p) = Some Dir \<and> butlast p \<notin> locked w)"

definition create_if_absent :: "path \<Rightarrow> world \<Rightarrow> world" where
  "create_if_absent p w =
     (case fsys w p of
        None \<Rightarrow> w\<lparr>fsys := (fsys w)(p \<mapsto> File [])\<rparr>
      | Some n \<Rightarrow> w)"

definition ofstream_open :: "ofstream \<Rightarrow> path \<Rightarrow> world \<Rightarrow> ofstream \<times> world" where
  "ofstream_open s p w =
     (if is_open s then (s, w)
      else if openable p w then (Some (p, []), create_if_absent p w)
      else (None, w))"

text \<open>
  Bytes leave a stream in append mode for the end of its file. A stream whose file is
  gone from the path writes to nothing that has a name.
\<close>

definition file_append :: "path \<Rightarrow> string \<Rightarrow> world \<Rightarrow> world" where
  "file_append p s w =
     (case fsys w p of
        Some (File content) \<Rightarrow> w\<lparr>fsys := (fsys w)(p \<mapsto> File (content @ s))\<rparr>
      | Some Dir \<Rightarrow> w
      | None \<Rightarrow> w)"

text \<open>
  \<^verbatim>\<open>stream << data\<close> on an open stream: the data joins what is pending in the buffer;
  the library hands the first \<open>drain\<close> bytes of that to the file and the stream keeps
  the rest. The program never puts to a closed stream; the library would drop the data.
\<close>

definition ofstream_put :: "ofstream \<Rightarrow> string \<Rightarrow> world \<Rightarrow> ofstream \<times> world" where
  "ofstream_put s data w =
     (case s of
        None \<Rightarrow> (None, w)
      | Some (p, buf) \<Rightarrow>
          (let pending = buf @ data; k = drain w buf data
           in (Some (p, drop k pending), file_append p (take k pending) w)))"

text \<open>
  \<^verbatim>\<open>close()\<close>: all that is pending goes to the file and the stream is closed. (On a
  closed stream it does nothing to any file.)
\<close>

definition ofstream_close :: "ofstream \<Rightarrow> world \<Rightarrow> ofstream \<times> world" where
  "ofstream_close s w =
     (case s of
        None \<Rightarrow> (None, w)
      | Some (p, buf) \<Rightarrow> (None, file_append p buf w))"

text \<open>\<^verbatim>\<open>cerr << text << endl\<close>: one line on the standard error stream.\<close>

definition cerr_line :: "string \<Rightarrow> world \<Rightarrow> world" where
  "cerr_line s w = w\<lparr>stderr := stderr w @ [s]\<rparr>"

text \<open>
  \<^verbatim>\<open>cerr << path\<close> prints the path between double quotes, with a backslash before
  every double quote and backslash in it.
\<close>

definition path_string :: "path \<Rightarrow> string" where
  "path_string p = (if p = [] then ''/'' else concat (map (\<lambda>c. CHR ''/'' # c) p))"

definition quoted :: "string \<Rightarrow> string" where
  "quoted s =
     CHR 0x22 # concat (map (\<lambda>c. if c = CHR 0x22 \<or> c = CHR 0x5C then [CHR 0x5C, c] else [c]) s)
       @ [CHR 0x22]"

section \<open>TimeManager\<close>

definition currentDateFormatted :: "world \<Rightarrow> string \<times> world" where
  "currentDateFormatted w =
     (let (datetime, w') = read_clock w in (strftime ''%Y-%m-%d'' datetime, w'))"

definition currentTimeFormatted :: "world \<Rightarrow> string \<times> world" where
  "currentTimeFormatted w =
     (let (datetime, w') = read_clock w in (strftime ''%H:%M:%S'' datetime, w'))"

section \<open>Logger\<close>

record logger =
  logFile :: ofstream
  warningLogFile :: ofstream
  errorLogFile :: ofstream

text \<open>The members as their default constructors leave them: three closed streams.\<close>

definition logger_init :: logger where
  "logger_init = \<lparr>logFile = None, warningLogFile = None, errorLogFile = None\<rparr>"

definition open_failed_line :: "path \<Rightarrow> string" where
  "open_failed_line p = ''Error: failed to open log file at '' @ quoted (path_string p)"

text \<open>
  \<^verbatim>\<open>createLogs\<close>, statement by statement. The variable \<open>logFilePath\<close> is assigned
  three times, each time after a call of \<open>currentDateFormatted\<close> of its own; the test of
  \<open>logFile\<close> comes after the second assignment.
\<close>

definition createLogs :: "path \<Rightarrow> logger \<Rightarrow> world \<Rightarrow> logger \<times> world" where
  "createLogs logDirPath lg w0 =
     (let (date1, w1) = currentDateFormatted w0;
          logFilePath1 = path_append logDirPath (date1 @ ''.log'');
          (s1, w2) = ofstream_open (logFile lg) logFilePath1 w1;
          lg1 = lg\<lparr>logFile := s1\<rparr>;
          (date2, w3) = currentDateFormatted w2;
          logFilePath2 = path_append logDirPath (date2 @ '' Warnings.log'');
          (s2, w4) = ofstream_open (warningLogFile lg1) logFilePath2 w3;
          lg2 = lg1\<lparr>warningLogFile := s2\<rparr>;
          w5 = (if \<not> is_open (warningLogFile lg2)
                then cerr_line (open_failed_line logFilePath2) w4 else w4);
          w6 = (if \<not> is_open (logFile lg2)
                then cerr_line (open_failed_line logFilePath2) w5 else w5);
          (date3, w7) = currentDateFormatted w6;
          logFilePath3 = path_append logDirPath (date3 @ '' Errors.log'');
          (s3, w8) = ofstream_open (errorLogFile lg2) logFilePath3 w7;
          lg3 = lg2\<lparr>errorLogFile := s3\<rparr>;
          w9 = (if \<not> is_open (errorLogFile lg3)
                then cerr_line (open_failed_line logFilePath3) w8 else w8)
      in (lg3, w9))"

text \<open>
  The constructor. Its parameter has the default value \<^verbatim>\<open>false\<close>. The only call in
  it that is modelled as throwing is \<^verbatim>\<open>create_directories\<close>; the working directory is
  taken to be known (\<^verbatim>\<open>current_path\<close> returns \<open>cwd\<close>).
\<close>

definition isSubdirectory_default :: bool where
  "isSubdirectory_default = False"

definition logDirPath_of :: "bool \<Rightarrow> world \<Rightarrow> path" where
  "logDirPath_of isSubdirectory w =
     (if isSubdirectory then path_append (cwd w) ''log''
      else path_append (parent_path (cwd w)) ''log'')"

definition Logger :: "bool \<Rightarrow> world \<Rightarrow> logger result" where
  "Logger isSubdirectory w =
     (let logDirPath = logDirPath_of isSubdirectory w in
      case create_directories logDirPath w of
        (Inl e, w') \<Rightarrow> (Inl e, w')
      | (Inr u, w') \<Rightarrow> (let (lg, w'') = createLogs logDirPath logger_init w' in (Inr lg, w'')))"

text \<open>
  The destructor: each stream that is open is closed, the main log first, and with that
  what it still holds goes to its file.
\<close>

definition Logger_destroy :: "logger \<Rightarrow> world \<Rightarrow> logger result" where
  "Logger_destroy lg w =
     (let (lg1, w1) =
            (if is_open (logFile lg)
             then (let (s, w') = ofstream_close (logFile lg) w in (lg\<lparr>logFile := s\<rparr>, w'))
             else (lg, w));
          (lg2, w2) =
            (if is_open (warningLogFile lg1)
             then (let (s, w') = ofstream_close (warningLogFile lg1) w1
                   in (lg1\<lparr>warningLogFile := s\<rparr>, w'))
             else (lg1, w1));
          (lg3, w3) =
            (if is_open (errorLogFile lg2)
             then (let (s, w') = ofstream_close (errorLogFile lg2) w2
                   in (lg2\<lparr>errorLogFile := s\<rparr>, w'))
             else (lg2, w2))
      in (Inr lg3, w3))"

text \<open>
  The three writers (\<open>write_msg\<close> is the source's \<^verbatim>\<open>write\<close>, a reserved word
  here). In the open branch the clock is read first, then the time and the
  string \<^verbatim>\<open>" " + message\<close> are put to the stream, one after the other. There is no
  \<^verbatim>\<open>flush\<close> and no \<^verbatim>\<open>endl\<close> on the log streams, and none of the writers has a
  \<^verbatim>\<open>throw\<close>.
\<close>

definition write_msg :: "string \<Rightarrow> logger \<Rightarrow> world \<Rightarrow> logger result" where
  "write_msg message lg w =
     (if is_open (logFile lg)
      then (let (now, w1) = currentTimeFormatted w;
                (s1, w2) = ofstream_put (logFile lg) now w1;
                (s2, w3) = ofstream_put s1 ('' '' @ message) w2
            in (Inr (lg\<lparr>logFile := s2\<rparr>), w3))
      else (Inr lg, cerr_line ''Error: log file is not open.'' w))"

definition writeWarning :: "string \<Rightarrow> logger \<Rightarrow> world \<Rightarrow> logger result" where
  "writeWarning message lg w =
     (if is_open (warningLogFile lg)
      then (let (now, w1) = currentTimeFormatted w;
                (s1, w2) = ofstream_put (warningLogFile lg) now w1;
                (s2, w3) = ofstream_put s1 ('' '' @ message) w2
            in (Inr (lg\<lparr>warningLogFile := s2\<rparr>), w3))
      else (Inr lg, cerr_line ''Error: warning log file is not open.'' w))"

definition writeError :: "string \<Rightarrow> logger \<Rightarrow> world \<Rightarrow> logger result" where
  "writeError message lg w =
     (if is_open (errorLogFile lg)
      then (let (now, w1) = currentTimeFormatted w;
                (s1, w2) = ofstream_put (errorLogFile lg) now w1;
                (s2, w3) = ofstream_put s1 ('' '' @ message) w2
            in (Inr (lg\<lparr>errorLogFile := s2\<rparr>), w3))
      else (Inr lg, cerr_line ''Error: error log file is not open.'' w))"

definition writeLine :: "string \<Rightarrow> logger \<Rightarrow> world \<Rightarrow> logger result" where
  "writeLine message lg w = write_msg (message @ [CHR 0x0A]) lg w"

definition writeWarningLine :: "string \<Rightarrow> logger \<Rightarrow> world \<Rightarrow> logger result" where
  "writeWarningLine message lg w = writeWarning (message @ [CHR 0x0A]) lg w"

definition writeErrorLine :: "string \<Rightarrow> logger \<Rightarrow> world \<Rightarrow> logger result" where
  "writeErrorLine message lg w = writeError (message @ [CHR 0x0A]) lg w"

subsection \<open>The three channels, named\<close>

datatype channel = Info | Warning | Error

fun stream_of :: "channel \<Rightarrow> logger \<Rightarrow> ofstream" where
  "stream_of Info lg = logFile lg"
| "stream_of Warning lg = warningLogFile lg"
| "stream_of Error lg = errorLogFile lg"

fun set_stream :: "channel \<Rightarrow> ofstream \<Rightarrow> logger \<Rightarrow> logger" where
  "set_stream Info s lg = lg\<lparr>logFile := s\<rparr>"
| "set_stream Warning s lg = lg\<lparr>warningLogFile := s\<rparr>"
| "set_stream Error s lg = lg\<lparr>errorLogFile := s\<rparr>"

fun write_on :: "channel \<Rightarrow> string \<Rightarrow> logger \<Rightarrow> world \<Rightarrow> logger result" where
  "write_on Info = write_msg"
| "write_on Warning = writeWarning"
| "write_on Error = writeError"

fun writeLine_on :: "channel \<Rightarrow> string \<Rightarrow> logger \<Rightarrow> world \<Rightarrow> logger result" where
  "writeLine_on Info = writeLine"
| "writeLine_on Warning = writeWarningLine"
| "writeLine_on Error = writeErrorLine"

text \<open>
  For each channel, the clock reading that \<open>createLogs\<close> names its file after (the
  first, second and third of the construction), the end of its file name, and so the
  path \<open>createLogs\<close> opens for it in the directory \<open>dir\<close>.
\<close>

fun reading_of :: "channel \<Rightarrow> tm stream \<Rightarrow> tm" where
  "reading_of Info s = shd s"
| "reading_of Warning s = shd (stl s)"
| "reading_of Error s = shd (stl (stl s))"

fun suffix_of :: "channel \<Rightarrow> string" where
  "suffix_of Info = ''.log''"
| "suffix_of Warning = '' Warnings.log''"
| "suffix_of Error = '' Errors.log''"

definition channel_path :: "path \<Rightarrow> world \<Rightarrow> channel \<Rightarrow> path" where
  "channel_path dir w ch =
     path_append dir (strftime ''%Y-%m-%d'' (reading_of ch (clock w)) @ suffix_of ch)"

fun not_open_line :: "channel \<Rightarrow> string" where
  "not_open_line Info = ''Error: log file is not open.''"
| "not_open_line Warning = ''Error: warning log file is not open.''"
| "not_open_line Error = ''Error: error log file is not open.''"

subsection \<open>Calls on a logger, one after another\<close>

text \<open>
  What a client such as \<^verbatim>\<open>main\<close> of \<^verbatim>\<open>src/program.cpp\<close> does with a logger between its
  construction and its destruction: a sequence of calls of the six writers. An exception
  would end the sequence.
\<close>

datatype call = Write channel string | WriteLine channel string

fun do_call :: "call \<Rightarrow> logger \<Rightarrow> world \<Rightarrow> logger result" where
  "do_call (Write ch message) = write_on ch message"
| "do_call (WriteLine ch message) = writeLine_on ch message"

fun do_calls :: "call list \<Rightarrow> logger \<Rightarrow> world \<Rightarrow> logger result" where
  "do_calls [] lg w = (Inr lg, w)"
| "do_calls (c # cs) lg w =
     (case do_call c lg w of
        (Inl e, w') \<Rightarrow> (Inl e, w')
      | (Inr lg', w') \<Rightarrow> do_calls cs lg' w')"

section \<open>The patterns of the specification\<close>

text \<open>
  The specification writes the two formats as \<^verbatim>\<open>YYYY-MM-DD\<close> and \<^verbatim>\<open>HH:MM:SS\<close>: a letter
  of the pattern stands for one decimal digit, any other character for itself.
\<close>

definition is_digit :: "char \<Rightarrow> bool" where
  "is_digit c = (c \<in> set ''0123456789'')"

fun matches_pattern :: "string \<Rightarrow> string \<Rightarrow> bool" where
  "matches_pattern [] [] = True"
| "matches_pattern (p # ps) (c # cs) =
     ((if p \<in> set ''YMDHS'' then is_digit c else c = p) \<and> matches_pattern ps cs)"
| "matches_pattern [] (c # cs) = False"
| "matches_pattern (p # ps) [] = False"

section \<open>Worlds to run the program in\<close>

text \<open>
  A small file system with the working directory \<^verbatim>\<open>/home/u\<close> and a library that
  keeps everything in the buffer until the stream is closed, and clocks that stand at
  14:07:09 on 5 March 2024, that pass midnight of 31 December 2024 between the first and
  the second reading, and that stand at the first second of the year 10000.
\<close>

definition tm_example :: tm where
  "tm_example = \<lparr>tm_sec = 9, tm_min = 7, tm_hour = 14, tm_mday = 5, tm_mon = 2, tm_year = 124\<rparr>"

definition tm_before_midnight :: tm where
  "tm_before_midnight =
     \<lparr>tm_sec = 59, tm_min = 59, tm_hour = 23, tm_mday = 31, tm_mon = 11, tm_year = 124\<rparr>"

definition tm_after_midnight :: tm where
  "tm_after_midnight =
     \<lparr>tm_sec = 0, tm_min = 0, tm_hour = 0, tm_mday = 1, tm_mon = 0, tm_year = 125\<rparr>"

definition tm_year_10000 :: tm where
  "tm_year_10000 =
     \<lparr>tm_sec = 0, tm_min = 0, tm_hour = 0, tm_mday = 1, tm_mon = 0, tm_year = 8100\<rparr>"

definition fs_home :: "path \<Rightarrow> node option" where
  "fs_home = [[] \<mapsto> Dir, [''home''] \<mapsto> Dir, [''home'', ''u''] \<mapsto> Dir]"

definition world_example :: world where
  "world_example =
     \<lparr>cwd = [''home'', ''u''], fsys = fs_home, locked = {}, clock = sconst tm_example,
      stderr = [], drain = (\<lambda>buf data. 0)\<rparr>"

definition world_midnight :: world where
  "world_midnight = world_example\<lparr>clock := tm_before_midnight ## sconst tm_after_midnight\<rparr>"

definition world_year_10000 :: world where
  "world_year_10000 = world_example\<lparr>clock := sconst tm_year_10000\<rparr>"

text \<open>\<^verbatim>\<open>/home\<close> is read-only and has no \<^verbatim>\<open>log\<close> in it.\<close>

definition world_readonly :: world where
  "world_readonly = world_example\<lparr>locked := {[''home'']}\<rparr>"

text \<open>
  \<^verbatim>\<open>/home/log\<close> exists and holds today's main log, which is read-only; the other two
  files are not there yet.
\<close>

definition fs_logged :: "path \<Rightarrow> node option" where
  "fs_logged =
     fs_home([''home'', ''log''] \<mapsto> Dir,
             [''home'', ''log'', ''2024-03-05.log''] \<mapsto> File ''old'')"

definition world_info_locked :: world where
  "world_info_locked =
     world_example\<lparr>fsys := fs_logged, locked := {[''home'', ''log'', ''2024-03-05.log'']}\<rparr>"

text \<open>The same files with nothing read-only, and a logger whose main log alone is open.\<close>

definition world_logged :: world where
  "world_logged = world_example\<lparr>fsys := fs_logged\<rparr>"

definition logger_info_only :: logger where
  "logger_info_only =
     \<lparr>logFile = Some ([''home'', ''log'', ''2024-03-05.log''], []), warningLogFile = None,
      errorLogFile = None\<rparr>"

text \<open>That logger with a line written to the main log and still in the stream.\<close>

definition logger_pending :: logger where
  "logger_pending =
     logger_info_only
       \<lparr>logFile := Some ([''home'', ''log'', ''2024-03-05.log''],
                          ''14:07:09 disk low'' @ [CHR 0x0A])\<rparr>"

text \<open>
  The example world once \<^verbatim>\<open>/home/log\<close> is made, and the logger that a construction
  with every open succeeding yields there.
\<close>

definition world_with_log :: world where
  "world_with_log = world_example\<lparr>fsys := fs_home([''home'', ''log''] \<mapsto> Dir)\<rparr>"

definition logger_example :: logger where
  "logger_example =
     \<lparr>logFile = Some ([''home'', ''log'', ''2024-03-05.log''], []),
      warningLogFile = Some ([''home'', ''log'', ''2024-03-05 Warnings.log''], []),
      errorLogFile = Some ([''home'', ''log'', ''2024-03-05 Errors.log''], [])\<rparr>"

text \<open>The logger that a construction yields where the main log alone cannot be opened.\<close>

definition logger_info_failed :: logger where
  "logger_info_failed =
     \<lparr>logFile = None,
      warningLogFile = Some ([''home'', ''log'', ''2024-03-05 Warnings.log''], []),
      errorLogFile = Some ([''home'', ''log'', ''2024-03-05 Errors.log''], [])\<rparr>"

section \<open>Facts about the environment\<close>

lemma digit_char_in: "digit_char d \<in> set ''0123456789''"
  unfolding digit_char_def by (rule nth_mem) simp

lemma dec_nat_chars: "set (dec_nat n) \<subseteq> set ''0123456789''"
proof (induction n rule: dec_nat.induct)
  case (1 n)
  show ?case
  proof (cases "n < 10")
    case True
    then show ?thesis using digit_char_in [of n] by (subst dec_nat.simps) simp
  next
    case False
    then show ?thesis using 1 digit_char_in [of "n mod 10"] by (subst dec_nat.simps) simp
  qed
qed

lemma dec_nat_no: "c \<notin> set ''0123456789'' \<Longrightarrow> c \<notin> set (dec_nat n)"
  using dec_nat_chars [of n] by blast

lemma dec_int_no_space: "CHR '' '' \<notin> set (dec_int i)"
  unfolding dec_int_def by (simp add: dec_nat_no)

lemma pad2_no_space: "CHR '' '' \<notin> set (pad2 i)"
  unfolding pad2_def by (simp add: dec_int_no_space)

lemma date_eq: "strftime ''%Y-%m-%d'' t =
   dec_int (tm_year t + 1900) @ CHR ''-'' # pad2 (tm_mon t + 1) @ CHR ''-'' # pad2 (tm_mday t)"
  by (simp add: conversion_def)

lemma time_eq: "strftime ''%H:%M:%S'' t =
   pad2 (tm_hour t) @ CHR '':'' # pad2 (tm_min t) @ CHR '':'' # pad2 (tm_sec t)"
  by (simp add: conversion_def)

lemma date_no_space: "CHR '' '' \<notin> set (strftime ''%Y-%m-%d'' t)"
  unfolding date_eq by (simp add: dec_int_no_space pad2_no_space)

lemma name_info_warning: "CHR '' '' \<notin> set d \<Longrightarrow> d @ ''.log'' \<noteq> d' @ '' Warnings.log''"
proof
  assume ns: "CHR '' '' \<notin> set d" and eq: "d @ ''.log'' = d' @ '' Warnings.log''"
  have "d' @ '' Warnings.log'' = (d' @ '' Warnings'') @ ''.log''" by simp
  with eq have "d = d' @ '' Warnings''" by (simp only: append_same_eq)
  with ns show False by simp
qed

lemma name_info_error: "CHR '' '' \<notin> set d \<Longrightarrow> d @ ''.log'' \<noteq> d' @ '' Errors.log''"
proof
  assume ns: "CHR '' '' \<notin> set d" and eq: "d @ ''.log'' = d' @ '' Errors.log''"
  have "d' @ '' Errors.log'' = (d' @ '' Errors'') @ ''.log''" by simp
  with eq have "d = d' @ '' Errors''" by (simp only: append_same_eq)
  with ns show False by simp
qed

lemma name_warning_error: "d @ '' Warnings.log'' \<noteq> d' @ '' Errors.log''"
proof
  assume eq: "d @ '' Warnings.log'' = d' @ '' Errors.log''"
  have "d @ '' Warnings.log'' = (d @ '' Warning'') @ ''s.log''"
    and "d' @ '' Errors.log'' = (d' @ '' Error'') @ ''s.log''" by simp_all
  with eq have "d @ '' Warning'' = d' @ '' Error''" by (simp only: append_same_eq)
  then have "last (d @ '' Warning'') = last (d' @ '' Error'')" by simp
  then show False by simp
qed

lemma file_name_neq:
  assumes "ch \<noteq> ch'" and "CHR '' '' \<notin> set d" and "CHR '' '' \<notin> set d'"
  shows "d @ suffix_of ch \<noteq> d' @ suffix_of ch'"
proof -
  note iw = name_info_warning and ie = name_info_error and we = name_warning_error
  show ?thesis
    using assms iw [of d d'] ie [of d d'] we [of d d']
      iw [of d' d, symmetric] ie [of d' d, symmetric] we [of d' d, symmetric]
    by (cases ch; cases ch') simp_all
qed

lemma channel_path_neq: "ch \<noteq> ch' \<Longrightarrow> channel_path dir w ch \<noteq> channel_path dir w' ch'"
  unfolding channel_path_def path_append_def
  using file_name_neq [OF _ date_no_space date_no_space] by blast

lemma openable_upd [simp]:
  "openable p (w\<lparr>clock := c\<rparr>) = openable p w"
  "openable p (w\<lparr>stderr := e\<rparr>) = openable p w"
  by (simp_all add: openable_def split: option.splits node.splits)

lemma openable_cerr [simp]: "openable p (cerr_line s w) = openable p w"
  by (simp add: cerr_line_def)

lemma openable_create_other: "q \<noteq> p \<Longrightarrow> openable q (create_if_absent p w) = openable q w"
  by (auto simp: openable_def create_if_absent_def split: option.splits node.splits)

lemma create_sel [simp]:
  "clock (create_if_absent p w) = clock w"
  "stderr (create_if_absent p w) = stderr w"
  "locked (create_if_absent p w) = locked w"
  "cwd (create_if_absent p w) = cwd w"
  "drain (create_if_absent p w) = drain w"
  by (simp_all add: create_if_absent_def split: option.splits)

lemma create_upd [simp]:
  "create_if_absent p (w\<lparr>clock := c\<rparr>) = (create_if_absent p w)\<lparr>clock := c\<rparr>"
  "create_if_absent p (w\<lparr>stderr := e\<rparr>) = (create_if_absent p w)\<lparr>stderr := e\<rparr>"
  by (simp_all add: create_if_absent_def split: option.splits)

lemma ofstream_open_closed:
  "ofstream_open None p w =
     (if openable p w then (Some (p, []), create_if_absent p w) else (None, w))"
  by (simp add: ofstream_open_def is_open_def)

lemma read_date: "currentDateFormatted w = (strftime ''%Y-%m-%d'' (shd (clock w)), w\<lparr>clock := stl (clock w)\<rparr>)"
  by (simp add: currentDateFormatted_def read_clock_def)

lemma cerr_sel [simp]:
  "clock (cerr_line s w) = clock w"
  "fsys (cerr_line s w) = fsys w"
  "locked (cerr_line s w) = locked w"
  "cwd (cerr_line s w) = cwd w"
  "stderr (cerr_line s w) = stderr w @ [s]"
  by (simp_all add: cerr_line_def)

lemmas createLogs_unfold =
  createLogs_def read_date ofstream_open_closed logger_init_def is_open_def Let_def

lemma createLogs_init:
  fixes dir w
  defines "p1 \<equiv> channel_path dir w Info"
    and "p2 \<equiv> channel_path dir w Warning"
    and "p3 \<equiv> channel_path dir w Error"
  shows "createLogs dir logger_init w =
    (\<lparr>logFile = (if openable p1 w then Some (p1, []) else None),
      warningLogFile = (if openable p2 w then Some (p2, []) else None),
      errorLogFile = (if openable p3 w then Some (p3, []) else None)\<rparr>,
     (snd (ofstream_open None p3 (snd (ofstream_open None p2 (snd (ofstream_open None p1 w))))))
       \<lparr>clock := stl (stl (stl (clock w))),
        stderr := stderr w @ (if openable p2 w then [] else [open_failed_line p2])
                    @ (if openable p1 w then [] else [open_failed_line p2])
                    @ (if openable p3 w then [] else [open_failed_line p3])\<rparr>)"
proof -
  have n: "p2 \<noteq> p1" "p3 \<noteq> p1" "p3 \<noteq> p2"
    unfolding p1_def p2_def p3_def by (simp_all add: channel_path_neq)
  have e: "path_append dir (strftime ''%Y-%m-%d'' (shd (clock w)) @ ''.log'') = p1"
    "path_append dir (strftime ''%Y-%m-%d'' (shd (stl (clock w))) @ '' Warnings.log'') = p2"
    "path_append dir (strftime ''%Y-%m-%d'' (shd (stl (stl (clock w)))) @ '' Errors.log'') = p3"
    by (simp_all only: p1_def p2_def p3_def channel_path_def reading_of.simps suffix_of.simps)
  show ?thesis
    by (cases "openable p1 w"; cases "openable p2 w"; cases "openable p3 w")
      (simp_all add: createLogs_unfold e openable_create_other n cerr_line_def del: strftime.simps)
qed

lemma createLogs_streams:
  "stream_of ch (fst (createLogs dir logger_init w)) =
     (if openable (channel_path dir w ch) w then Some (channel_path dir w ch, []) else None)"
  by (cases ch) (simp_all add: createLogs_init)

lemma createLogs_stderr:
  "stderr (snd (createLogs dir logger_init w)) =
     stderr w @ (if openable (channel_path dir w Warning) w then [] else [open_failed_line (channel_path dir w Warning)])
       @ (if openable (channel_path dir w Info) w then [] else [open_failed_line (channel_path dir w Warning)])
       @ (if openable (channel_path dir w Error) w then [] else [open_failed_line (channel_path dir w Error)])"
  by (simp add: createLogs_init)

lemma ofstream_open_sel [simp]:
  "clock (snd (ofstream_open s p w)) = clock w"
  "stderr (snd (ofstream_open s p w)) = stderr w"
  "locked (snd (ofstream_open s p w)) = locked w"
  "cwd (snd (ofstream_open s p w)) = cwd w"
  "drain (snd (ofstream_open s p w)) = drain w"
  by (simp_all add: ofstream_open_def)

lemma ofstream_open_keeps: "fsys w q = Some n \<Longrightarrow> fsys (snd (ofstream_open s p w)) q = Some n"
  by (auto simp: ofstream_open_def create_if_absent_def split: option.splits)

lemma createLogs_keeps:
  "fsys w q = Some n \<Longrightarrow> fsys (snd (createLogs dir logger_init w)) q = Some n"
  by (simp add: createLogs_init ofstream_open_keeps)

lemma createLogs_sel:
  "clock (snd (createLogs dir logger_init w)) = stl (stl (stl (clock w)))"
  "locked (snd (createLogs dir logger_init w)) = locked w"
  "cwd (snd (createLogs dir logger_init w)) = cwd w"
  "drain (snd (createLogs dir logger_init w)) = drain w"
  by (simp_all add: createLogs_init)

lemma ofstream_open_openable:
  "q \<noteq> p \<Longrightarrow> openable q (snd (ofstream_open None p w)) = openable q w"
  by (simp add: ofstream_open_closed openable_create_other)

lemma ofstream_open_makes:
  "openable q w \<Longrightarrow> \<exists>c. fsys (snd (ofstream_open None q w)) q = Some (File c)"
  by (auto simp: ofstream_open_closed openable_def create_if_absent_def
      split: option.splits node.splits)

lemma createLogs_files:
  assumes "stream_of ch (fst (createLogs dir logger_init w)) = Some (q, b)"
  shows "\<exists>c. fsys (snd (createLogs dir logger_init w)) q = Some (File c)"
proof -
  define w1 where "w1 = snd (ofstream_open None (channel_path dir w Info) w)"
  define w2 where "w2 = snd (ofstream_open None (channel_path dir w Warning) w1)"
  define w3 where "w3 = snd (ofstream_open None (channel_path dir w Error) w2)"
  have fs: "fsys (snd (createLogs dir logger_init w)) = fsys w3"
    by (simp add: createLogs_init w1_def w2_def w3_def)
  from assms have o: "openable q w" and q: "q = channel_path dir w ch"
    by (simp_all add: createLogs_streams split: if_splits)
  have "\<exists>c. fsys w3 q = Some (File c)"
  proof (cases ch)
    case Info
    with o q obtain c where "fsys w1 q = Some (File c)"
      unfolding w1_def using ofstream_open_makes by blast
    then have "fsys w3 q = Some (File c)"
      unfolding w2_def w3_def by (intro ofstream_open_keeps)
    then show ?thesis ..
  next
    case Warning
    with o q have "openable q w1"
      unfolding w1_def by (simp add: ofstream_open_openable channel_path_neq)
    with q Warning obtain c where "fsys w2 q = Some (File c)"
      unfolding w2_def using ofstream_open_makes by blast
    then have "fsys w3 q = Some (File c)"
      unfolding w3_def by (intro ofstream_open_keeps)
    then show ?thesis ..
  next
    case Error
    with o q have "openable q w2"
      unfolding w1_def w2_def by (simp add: ofstream_open_openable channel_path_neq)
    with q Error show ?thesis
      unfolding w3_def using ofstream_open_makes by blast
  qed
  with fs show ?thesis by simp
qed

lemma create_dirs_from_sel:
  "clock (snd (create_dirs_from pre cs w)) = clock w"
  "stderr (snd (create_dirs_from pre cs w)) = stderr w"
  "locked (snd (create_dirs_from pre cs w)) = locked w"
  "cwd (snd (create_dirs_from pre cs w)) = cwd w"
proof (induction cs arbitrary: pre w)
  case Nil
  {
    case 1 show ?case by simp
  next
    case 2 show ?case by simp
  next
    case 3 show ?case by simp
  next
    case 4 show ?case by simp
  }
next
  case (Cons c cs)
  {
    case 1 show ?case using Cons.IH(1) by (simp split: option.splits node.splits)
  next
    case 2 show ?case using Cons.IH(2) by (simp split: option.splits node.splits)
  next
    case 3 show ?case using Cons.IH(3) by (simp split: option.splits node.splits)
  next
    case 4 show ?case using Cons.IH(4) by (simp split: option.splits node.splits)
  }
qed

lemma create_dirs_from_keeps:
  "fsys w q = Some n \<Longrightarrow> fsys (snd (create_dirs_from pre cs w)) q = Some n"
proof (induction cs arbitrary: pre w)
  case Nil
  then show ?case by simp
next
  case (Cons c cs)
  show ?case
  proof (cases "fsys w (pre @ [c])")
    case None
    with Cons.prems have "q \<noteq> pre @ [c]" by auto
    with Cons.prems have "fsys (w\<lparr>fsys := (fsys w)(pre @ [c] \<mapsto> Dir)\<rparr>) q = Some n" by simp
    from Cons.IH [OF this] None Cons.prems show ?thesis by simp
  next
    case (Some m)
    with Cons show ?thesis by (cases m) simp_all
  qed
qed

lemma create_dirs_from_files:
  "fsys (snd (create_dirs_from pre cs w)) q = Some (File content) \<Longrightarrow> fsys w q = Some (File content)"
proof (induction cs arbitrary: pre w)
  case Nil
  then show ?case by simp
next
  case (Cons c cs)
  show ?case
  proof (cases "fsys w (pre @ [c])")
    case None
    show ?thesis
    proof (cases "fsys w pre = Some Dir \<and> pre \<notin> locked w")
      case True
      with None Cons.prems
      have "fsys (snd (create_dirs_from (pre @ [c]) cs (w\<lparr>fsys := (fsys w)(pre @ [c] \<mapsto> Dir)\<rparr>))) q
              = Some (File content)" by simp
      from Cons.IH [OF this] show ?thesis by (simp split: if_splits)
    next
      case False
      with None Cons.prems show ?thesis by auto
    qed
  next
    case (Some m)
    with Cons show ?thesis by (cases m) simp_all
  qed
qed

lemma create_dirs_from_ok:
  "fst (create_dirs_from pre cs w) = Inr () \<Longrightarrow> cs \<noteq> [] \<Longrightarrow>
     fsys (snd (create_dirs_from pre cs w)) (pre @ cs) = Some Dir"
proof (induction cs arbitrary: pre w)
  case Nil
  then show ?case by simp
next
  case (Cons c cs)
  show ?case
  proof (cases cs)
    case Nil
    with Cons.prems show ?thesis by (auto split: option.splits node.splits if_splits)
  next
    case (Cons d ds)
    then have ne: "cs \<noteq> []" by simp
    show ?thesis
    proof (cases "fsys w (pre @ [c])")
      case None
      with Cons.prems have ok: "fsys w pre = Some Dir \<and> pre \<notin> locked w"
        by (auto split: if_splits)
      with None Cons.prems
      have "fst (create_dirs_from (pre @ [c]) cs (w\<lparr>fsys := (fsys w)(pre @ [c] \<mapsto> Dir)\<rparr>)) = Inr ()"
        by simp
      from Cons.IH [OF this ne] None ok show ?thesis by simp
    next
      case (Some m)
      show ?thesis
      proof (cases m)
        case Dir
        with Some Cons.prems have "fst (create_dirs_from (pre @ [c]) cs w) = Inr ()" by simp
        from Cons.IH [OF this ne] Some Dir show ?thesis by simp
      next
        case (File x)
        with Some Cons.prems show ?thesis by simp
      qed
    qed
  qed
qed

lemma create_directories_sel:
  "clock (snd (create_directories p w)) = clock w"
  "stderr (snd (create_directories p w)) = stderr w"
  "locked (snd (create_directories p w)) = locked w"
  "cwd (snd (create_directories p w)) = cwd w"
  by (simp_all add: create_directories_def create_dirs_from_sel)

lemma create_directories_keeps:
  "fsys w q = Some n \<Longrightarrow> fsys (snd (create_directories p w)) q = Some n"
  unfolding create_directories_def by (simp add: create_dirs_from_keeps)

lemma create_directories_files:
  "fsys (snd (create_directories p w)) q = Some (File content) \<Longrightarrow> fsys w q = Some (File content)"
  unfolding create_directories_def
  by (cases "fsys w p = Some Dir") (auto dest: create_dirs_from_files)

lemma create_directories_ok:
  "fst (create_directories p w) = Inr () \<Longrightarrow> p \<noteq> [] \<Longrightarrow>
     fsys (snd (create_directories p w)) p = Some Dir"
  using create_dirs_from_ok [of "[]" p w]
  by (simp add: create_directories_def split: if_splits)

lemma create_directories_exists:
  "fsys w p = Some Dir \<Longrightarrow> create_directories p w = (Inr (), w)"
  by (simp add: create_directories_def)

section \<open>Facts about the logger\<close>

lemma read_time:
  "currentTimeFormatted w = (strftime ''%H:%M:%S'' (shd (clock w)), w\<lparr>clock := stl (clock w)\<rparr>)"
  by (simp add: currentTimeFormatted_def read_clock_def)

lemma file_append_sel [simp]:
  "clock (file_append p s w) = clock w"
  "stderr (file_append p s w) = stderr w"
  "locked (file_append p s w) = locked w"
  "cwd (file_append p s w) = cwd w"
  "drain (file_append p s w) = drain w"
  by (simp_all add: file_append_def split: option.splits node.splits)

lemma file_append_file:
  "fsys w p = Some (File content) \<Longrightarrow>
     file_append p s w = w\<lparr>fsys := (fsys w)(p \<mapsto> File (content @ s))\<rparr>"
  by (simp add: file_append_def)

lemma file_append_other: "q \<noteq> p \<Longrightarrow> fsys (file_append p s w) q = fsys w q"
  by (simp add: file_append_def split: option.splits node.splits)

lemma file_append_is_file:
  "\<exists>x. fsys w q = Some (File x) \<Longrightarrow> \<exists>x. fsys (file_append p s w) q = Some (File x)"
  by (auto simp: file_append_def split: option.splits node.splits)

lemma file_append_twice:
  "fsys w p = Some (File content) \<Longrightarrow>
     file_append p b (file_append p a w) = w\<lparr>fsys := (fsys w)(p \<mapsto> File (content @ a @ b))\<rparr>"
  by (simp add: file_append_def)

lemma stream_of_set_stream:
  "stream_of ch (set_stream ch s lg) = s"
  "ch' \<noteq> ch \<Longrightarrow> stream_of ch' (set_stream ch s lg) = stream_of ch' lg"
  by (cases ch; cases ch'; simp)+

text \<open>
  What a write on an open channel does, whatever the library's buffer does: the stream
  stays open on its path, two pieces \<open>s1\<close> and \<open>s2\<close> go to the file, and these with
  what the stream then holds are what it held before, the time, a space and the message.
\<close>

lemma write_on_open:
  assumes "stream_of ch lg = Some (p, buf)"
  shows "\<exists>s1 s2 buf'.
     write_on ch msg lg w =
       (Inr (set_stream ch (Some (p, buf')) lg),
        file_append p s2 (file_append p s1 (w\<lparr>clock := stl (clock w)\<rparr>))) \<and>
     s1 @ s2 @ buf' = buf @ strftime ''%H:%M:%S'' (shd (clock w)) @ '' '' @ msg"
proof -
  define now where "now = strftime ''%H:%M:%S'' (shd (clock w))"
  define w1 where "w1 = w\<lparr>clock := stl (clock w)\<rparr>"
  define k1 where "k1 = drain w1 buf now"
  define pend1 where "pend1 = buf @ now"
  define w2 where "w2 = file_append p (take k1 pend1) w1"
  define pend2 where "pend2 = drop k1 pend1 @ '' '' @ msg"
  define k2 where "k2 = drain w2 (drop k1 pend1) ('' '' @ msg)"
  have put1: "ofstream_put (Some (p, buf)) now w1 = (Some (p, drop k1 pend1), w2)"
    by (simp add: ofstream_put_def Let_def k1_def pend1_def w2_def)
  have put2: "ofstream_put (Some (p, drop k1 pend1)) ('' '' @ msg) w2 =
      (Some (p, drop k2 pend2), file_append p (take k2 pend2) w2)"
    by (simp add: ofstream_put_def Let_def k2_def pend2_def)
  have whole: "take k1 pend1 @ drop k1 pend1 = pend1" by (rule append_take_drop_id)
  have "take k1 pend1 @ take k2 pend2 @ drop k2 pend2 = take k1 pend1 @ pend2"
    by (simp only: append_take_drop_id)
  also have "\<dots> = (take k1 pend1 @ drop k1 pend1) @ '' '' @ msg"
    unfolding pend2_def by (simp only: append_assoc)
  also have "\<dots> = pend1 @ '' '' @ msg" by (simp only: whole)
  also have "\<dots> = buf @ now @ '' '' @ msg"
    unfolding pend1_def by (simp only: append_assoc)
  finally have eq: "take k1 pend1 @ take k2 pend2 @ drop k2 pend2 = buf @ now @ '' '' @ msg" .
  have "write_on ch msg lg w =
      (Inr (set_stream ch (Some (p, drop k2 pend2)) lg),
       file_append p (take k2 pend2) (file_append p (take k1 pend1) w1))"
    using assms put1 put2
    by (cases ch)
      (simp_all add: write_msg_def writeWarning_def writeError_def is_open_def read_time
        now_def [symmetric] w1_def [symmetric] w2_def [symmetric] del: strftime.simps)
  with eq show ?thesis unfolding now_def w1_def by blast
qed

lemma write_on_closed:
  assumes "stream_of ch lg = None"
  shows "write_on ch m lg w = (Inr lg, w\<lparr>stderr := stderr w @ [not_open_line ch]\<rparr>)"
  using assms
  by (cases ch)
    (simp_all add: write_msg_def writeWarning_def writeError_def cerr_line_def is_open_def)

lemma writeLine_on_eq: "writeLine_on ch m lg w = write_on ch (m @ [CHR 0x0A]) lg w"
  by (cases ch) (simp_all add: writeLine_def writeWarningLine_def writeErrorLine_def)

lemma Logger_ok:
  assumes "create_directories (logDirPath_of b w) w = (Inr (), w1)"
  shows "Logger b w =
     (Inr (fst (createLogs (logDirPath_of b w) logger_init w1)),
      snd (createLogs (logDirPath_of b w) logger_init w1))"
  using assms by (simp add: Logger_def split_def Let_def)

lemma Logger_fail:
  assumes "fst (create_directories (logDirPath_of b w) w) = Inl e"
  shows "Logger b w = (Inl e, snd (create_directories (logDirPath_of b w) w))"
  using assms by (cases "create_directories (logDirPath_of b w) w") (simp add: Logger_def Let_def)

lemma Logger_Inr:
  assumes "Logger b w = (Inr lg, w')"
  shows "\<exists>w1. create_directories (logDirPath_of b w) w = (Inr (), w1) \<and>
     lg = fst (createLogs (logDirPath_of b w) logger_init w1) \<and>
     w' = snd (createLogs (logDirPath_of b w) logger_init w1)"
proof (cases "create_directories (logDirPath_of b w) w")
  case (Pair r w1)
  show ?thesis
  proof (cases r)
    case (Inl e)
    with Pair assms show ?thesis by (simp add: Logger_def Let_def)
  next
    case (Inr u)
    with Pair assms show ?thesis by (auto simp: Logger_def split_def Let_def)
  qed
qed

lemma date_example: "strftime ''%Y-%m-%d'' tm_example = ''2024-03-05''"
  by (simp add: tm_example_def conversion_def pad2_def dec_int_def dec_nat.simps digit_char_def)

lemma mkdir_example:
  "create_directories [''home'', ''log''] world_example =
     (Inr (), world_example\<lparr>fsys := fs_home([''home'', ''log''] \<mapsto> Dir)\<rparr>)"
  by (simp add: create_directories_def world_example_def fs_home_def)

lemma mkdir_readonly:
  "create_directories [''home'', ''log''] world_readonly =
     (Inl (filesystem_error permission_denied), world_readonly)"
  by (simp add: create_directories_def world_readonly_def world_example_def fs_home_def)

lemma dir_example [simp]:
  "logDirPath_of False world_example = [''home'', ''log'']"
  "logDirPath_of False world_readonly = [''home'', ''log'']"
  "logDirPath_of True world_example = [''home'', ''u'', ''log'']"
  by (simp_all add: logDirPath_of_def world_readonly_def world_example_def path_append_def parent_path_def)

lemma target_simps [simp]:
  "target None = None"
  "target (Some (p, buf)) = Some p"
  by (simp_all add: target_def)

lemma target_set_stream:
  assumes "target s = target (stream_of ch lg)"
  shows "target (stream_of ch' (set_stream ch s lg)) = target (stream_of ch' lg)"
  using assms by (cases "ch' = ch") (simp_all add: stream_of_set_stream)

lemma write_on_targets:
  "\<exists>lg'. fst (write_on ch msg lg w) = Inr lg' \<and>
     (\<forall>ch'. target (stream_of ch' lg') = target (stream_of ch' lg))"
proof (cases "stream_of ch lg")
  case None
  then show ?thesis by (simp add: write_on_closed)
next
  case (Some s)
  obtain p buf where s: "s = (p, buf)" by (cases s)
  from write_on_open [of ch lg p buf msg w] Some s obtain buf' where
    "fst (write_on ch msg lg w) = Inr (set_stream ch (Some (p, buf')) lg)" by auto
  moreover have "target (stream_of ch' (set_stream ch (Some (p, buf')) lg)) = target (stream_of ch' lg)"
    for ch'
    by (rule target_set_stream) (simp add: Some s)
  ultimately show ?thesis by blast
qed

lemma do_call_targets:
  "\<exists>lg'. fst (do_call c lg w) = Inr lg' \<and>
     (\<forall>ch. target (stream_of ch lg') = target (stream_of ch lg))"
  by (cases c) (simp_all add: writeLine_on_eq write_on_targets)

lemma do_calls_targets:
  "\<exists>lg'. fst (do_calls cs lg w) = Inr lg' \<and>
     (\<forall>ch. target (stream_of ch lg') = target (stream_of ch lg))"
proof (induction cs arbitrary: lg w)
  case Nil
  show ?case by simp
next
  case (Cons c cs)
  obtain r w' where r: "do_call c lg w = (r, w')" by (cases "do_call c lg w")
  with do_call_targets [of c lg w] obtain lg1 where
    lg1: "r = Inr lg1" "\<forall>ch. target (stream_of ch lg1) = target (stream_of ch lg)" by auto
  from Cons.IH [of lg1 w'] obtain lg' where
    "fst (do_calls cs lg1 w') = Inr lg'" "\<forall>ch. target (stream_of ch lg') = target (stream_of ch lg1)"
    by blast
  with r lg1 show ?case by simp
qed

text \<open>The destructor: all three streams closed, each flushed in its turn.\<close>

lemma ofstream_close_sel [simp]:
  "fst (ofstream_close s w) = None"
  "clock (snd (ofstream_close s w)) = clock w"
  "stderr (snd (ofstream_close s w)) = stderr w"
  "locked (snd (ofstream_close s w)) = locked w"
  "cwd (snd (ofstream_close s w)) = cwd w"
  "drain (snd (ofstream_close s w)) = drain w"
  by (simp_all add: ofstream_close_def split: option.splits prod.splits)

lemma ofstream_close_None [simp]: "ofstream_close None w = (None, w)"
  by (simp add: ofstream_close_def)

lemma ofstream_close_other:
  "target s \<noteq> Some q \<Longrightarrow> fsys (snd (ofstream_close s w)) q = fsys w q"
  by (cases s) (auto simp: ofstream_close_def file_append_other)

lemma ofstream_close_own:
  "fsys w p = Some (File content) \<Longrightarrow>
     fsys (snd (ofstream_close (Some (p, buf)) w)) p = Some (File (content @ buf))"
  by (simp add: ofstream_close_def file_append_file)

lemma Logger_destroy_eq:
  "Logger_destroy lg w =
     (Inr logger_init,
      snd (ofstream_close (errorLogFile lg)
        (snd (ofstream_close (warningLogFile lg) (snd (ofstream_close (logFile lg) w))))))"
  by (cases "logFile lg"; cases "warningLogFile lg"; cases "errorLogFile lg")
    (simp_all add: Logger_destroy_def logger_init_def is_open_def split_def Let_def)

lemma Logger_destroy_sel:
  "clock (snd (Logger_destroy lg w)) = clock w"
  "stderr (snd (Logger_destroy lg w)) = stderr w"
  "locked (snd (Logger_destroy lg w)) = locked w"
  "cwd (snd (Logger_destroy lg w)) = cwd w"
  by (simp_all add: Logger_destroy_eq)

lemma Logger_destroy_other:
  assumes "\<forall>ch. target (stream_of ch lg) \<noteq> Some q"
  shows "fsys (snd (Logger_destroy lg w)) q = fsys w q"
proof -
  from assms [rule_format, of Info] assms [rule_format, of Warning] assms [rule_format, of Error]
  show ?thesis by (simp add: Logger_destroy_eq ofstream_close_other)
qed

lemma Logger_destroy_own:
  assumes s: "stream_of ch lg = Some (p, buf)" and f: "fsys w p = Some (File content)"
    and d: "\<forall>ch'. ch' \<noteq> ch \<longrightarrow> target (stream_of ch' lg) \<noteq> Some p"
  shows "fsys (snd (Logger_destroy lg w)) p = Some (File (content @ buf))"
proof (cases ch)
  case Info
  with d have o: "target (warningLogFile lg) \<noteq> Some p" "target (errorLogFile lg) \<noteq> Some p"
    using d [rule_format, of Warning] d [rule_format, of Error] by simp_all
  from s Info f show ?thesis
    by (simp add: Logger_destroy_eq ofstream_close_other o ofstream_close_own)
next
  case Warning
  with d have o: "target (logFile lg) \<noteq> Some p" "target (errorLogFile lg) \<noteq> Some p"
    using d [rule_format, of Info] d [rule_format, of Error] by simp_all
  from s Warning f show ?thesis
    by (simp add: Logger_destroy_eq ofstream_close_other o ofstream_close_own)
next
  case Error
  with d have o: "target (logFile lg) \<noteq> Some p" "target (warningLogFile lg) \<noteq> Some p"
    using d [rule_format, of Info] d [rule_format, of Warning] by simp_all
  from s Error f show ?thesis
    by (simp add: Logger_destroy_eq ofstream_close_other o ofstream_close_own)
qed

lemma createLogs_is_open:
  "is_open (stream_of ch (fst (createLogs dir logger_init w))) = openable (channel_path dir w ch) w"
  by (simp add: createLogs_streams is_open_def)

lemma date_example_world [simp]:
  "clock world_with_log = sconst tm_example"
  "fsys world_with_log = fs_home([''home'', ''log''] \<mapsto> Dir)"
  "locked world_with_log = {}"
  "stderr world_with_log = []"
  "cwd world_with_log = [''home'', ''u'']"
  by (simp_all add: world_with_log_def world_example_def)

lemma channel_path_example:
  "channel_path [''home'', ''log''] world_with_log Info = [''home'', ''log'', ''2024-03-05.log'']"
  "channel_path [''home'', ''log''] world_with_log Warning = [''home'', ''log'', ''2024-03-05 Warnings.log'']"
  "channel_path [''home'', ''log''] world_with_log Error = [''home'', ''log'', ''2024-03-05 Errors.log'']"
  by (simp_all add: channel_path_def path_append_def date_example del: strftime.simps)

lemma openable_example:
  "openable [''home'', ''log'', ''2024-03-05.log''] world_with_log"
  "openable [''home'', ''log'', ''2024-03-05 Warnings.log''] world_with_log"
  "openable [''home'', ''log'', ''2024-03-05 Errors.log''] world_with_log"
  by (simp_all add: openable_def fs_home_def)

lemma Logger_example:
  "Logger False world_example =
     (Inr logger_example, snd (createLogs [''home'', ''log''] logger_init world_with_log))"
proof -
  have "create_directories (logDirPath_of False world_example) world_example = (Inr (), world_with_log)"
    by (simp add: mkdir_example world_with_log_def)
  from Logger_ok [OF this] show ?thesis
    by (simp add: createLogs_init channel_path_example openable_example logger_example_def)
qed

lemma escape_inj:
  "concat (map (\<lambda>c. if c = CHR 0x22 \<or> c = CHR 0x5C then [CHR 0x5C, c] else [c]) s) =
   concat (map (\<lambda>c. if c = CHR 0x22 \<or> c = CHR 0x5C then [CHR 0x5C, c] else [c]) t)
   \<Longrightarrow> s = t"
proof (induction s arbitrary: t)
  case Nil
  then show ?case by (cases t) (simp_all split: if_splits)
next
  case (Cons a s)
  show ?case
  proof (cases t)
    case Nil
    with Cons.prems show ?thesis by (simp split: if_splits)
  next
    case (Cons b u)
    with Cons.prems Cons.IH [of u] show ?thesis by (simp split: if_splits)
  qed
qed

lemma quoted_inj: "quoted s = quoted t \<Longrightarrow> s = t"
  unfolding quoted_def using escape_inj by simp

lemma path_string_snoc:
  "path_string (dir @ [a]) = concat (map (\<lambda>c. CHR ''/'' # c) dir) @ CHR ''/'' # a"
  by (simp add: path_string_def)

lemma open_failed_line_inj:
  assumes "open_failed_line (path_append dir a) = open_failed_line (path_append dir b)"
  shows "a = b"
proof -
  from assms have "quoted (path_string (dir @ [a])) = quoted (path_string (dir @ [b]))"
    by (simp add: open_failed_line_def path_append_def)
  then have "path_string (dir @ [a]) = path_string (dir @ [b])" by (rule quoted_inj)
  then show ?thesis by (simp add: path_string_snoc)
qed

lemma open_failed_line_channels:
  assumes "ch \<noteq> ch'"
  shows "open_failed_line (channel_path dir w ch) \<noteq> open_failed_line (channel_path dir w' ch')"
proof
  assume "open_failed_line (channel_path dir w ch) = open_failed_line (channel_path dir w' ch')"
  then have "strftime ''%Y-%m-%d'' (reading_of ch (clock w)) @ suffix_of ch =
             strftime ''%Y-%m-%d'' (reading_of ch' (clock w')) @ suffix_of ch'"
    unfolding channel_path_def by (rule open_failed_line_inj)
  with file_name_neq [OF assms date_no_space date_no_space] show False by blast
qed

lemma channel_path_clock: "clock w' = clock w \<Longrightarrow> channel_path dir w' ch = channel_path dir w ch"
  by (simp add: channel_path_def)

lemma Logger_stderr:
  assumes "Logger b w = (Inr lg, w')"
  shows "stderr w' = stderr w
     @ (if is_open (warningLogFile lg) then []
        else [open_failed_line (channel_path (logDirPath_of b w) w Warning)])
     @ (if is_open (logFile lg) then []
        else [open_failed_line (channel_path (logDirPath_of b w) w Warning)])
     @ (if is_open (errorLogFile lg) then []
        else [open_failed_line (channel_path (logDirPath_of b w) w Error)])"
proof -
  from Logger_Inr [OF assms] obtain w1 where
    mk: "create_directories (logDirPath_of b w) w = (Inr (), w1)"
    and lg: "lg = fst (createLogs (logDirPath_of b w) logger_init w1)"
    and w': "w' = snd (createLogs (logDirPath_of b w) logger_init w1)" by blast
  from mk create_directories_sel [of "logDirPath_of b w" w]
  have c: "clock w1 = clock w" and e: "stderr w1 = stderr w" by simp_all
  have o: "is_open (stream_of ch lg) = openable (channel_path (logDirPath_of b w) w ch) w1" for ch
    unfolding lg by (simp add: createLogs_is_open channel_path_clock [OF c])
  from o [of Info] o [of Warning] o [of Error] show ?thesis
    unfolding w' by (simp add: createLogs_stderr channel_path_clock [OF c] e)
qed

lemma time_example: "strftime ''%H:%M:%S'' tm_example = ''14:07:09''"
  by (simp add: tm_example_def conversion_def pad2_def dec_int_def dec_nat.simps digit_char_def)

lemma world_logged_sel [simp]:
  "drain world_logged = (\<lambda>buf data. 0)"
  "clock world_logged = sconst tm_example"
  "fsys world_logged = fs_logged"
  "locked world_logged = {}"
  "stderr world_logged = []"
  "cwd world_logged = [''home'', ''u'']"
  by (simp_all add: world_logged_def world_example_def)

lemma world_info_locked_sel [simp]:
  "clock world_info_locked = sconst tm_example"
  "fsys world_info_locked = fs_logged"
  "locked world_info_locked = {[''home'', ''log'', ''2024-03-05.log'']}"
  "stderr world_info_locked = []"
  "cwd world_info_locked = [''home'', ''u'']"
  by (simp_all add: world_info_locked_def world_example_def)

lemma channel_path_sconst:
  "clock w = sconst tm_example \<Longrightarrow>
     channel_path dir w ch = dir @ [''2024-03-05'' @ suffix_of ch]"
  by (cases ch) (simp_all add: channel_path_def path_append_def date_example del: strftime.simps)

lemma dir_logged [simp]:
  "logDirPath_of False world_logged = [''home'', ''log'']"
  "logDirPath_of False world_info_locked = [''home'', ''log'']"
  by (simp_all add: logDirPath_of_def path_append_def parent_path_def)

lemma fs_logged_dir: "fs_logged [''home'', ''log''] = Some Dir"
  by (simp add: fs_logged_def)

lemma mkdir_info_locked:
  "create_directories (logDirPath_of False world_info_locked) world_info_locked
     = (Inr (), world_info_locked)"
  by (simp add: create_directories_exists fs_logged_dir)

lemma openable_info_locked:
  "\<not> openable [''home'', ''log'', ''2024-03-05.log''] world_info_locked"
  "openable [''home'', ''log'', ''2024-03-05 Warnings.log''] world_info_locked"
  "openable [''home'', ''log'', ''2024-03-05 Errors.log''] world_info_locked"
  by (simp_all add: openable_def fs_logged_def fs_home_def)

lemma Logger_info_locked:
  "Logger False world_info_locked = (Inr logger_info_failed, snd (Logger False world_info_locked))"
  unfolding Logger_ok [OF mkdir_info_locked]
  by (simp add: createLogs_init channel_path_sconst openable_info_locked logger_info_failed_def)

lemma warnings_line:
  "open_failed_line [''home'', ''log'', ''2024-03-05 Warnings.log''] =
     ''Error: failed to open log file at '' @ CHR 0x22 # ''/home/log/2024-03-05 Warnings.log''
       @ [CHR 0x22]"
  by (simp add: open_failed_line_def quoted_def path_string_def)

lemma Logger_keeps:
  assumes "Logger b w = (Inr lg, w')" and "fsys w p = Some n"
  shows "fsys w' p = Some n"
proof -
  from Logger_Inr [OF assms(1)] obtain w1 where
    mk: "create_directories (logDirPath_of b w) w = (Inr (), w1)"
    and w': "w' = snd (createLogs (logDirPath_of b w) logger_init w1)" by blast
  from create_directories_keeps [OF assms(2), of "logDirPath_of b w"] mk
  have "fsys w1 p = Some n" by simp
  then show ?thesis unfolding w' by (rule createLogs_keeps)
qed

lemma channel_path_same_day:
  assumes "cwd w0 = cwd w"
    and "strftime ''%Y-%m-%d'' (reading_of ch (clock w0)) = strftime ''%Y-%m-%d'' (reading_of ch (clock w))"
  shows "channel_path (logDirPath_of b w0) w0 ch = channel_path (logDirPath_of b w) w ch"
  using assms by (simp add: channel_path_def logDirPath_of_def del: strftime.simps)

lemma mkdir_logged:
  "create_directories (logDirPath_of False world_logged) world_logged = (Inr (), world_logged)"
  by (simp add: create_directories_exists fs_logged_dir)

lemma openable_logged:
  "openable [''home'', ''log'', ''2024-03-05.log''] world_logged"
  "openable [''home'', ''log'', ''2024-03-05 Warnings.log''] world_logged"
  "openable [''home'', ''log'', ''2024-03-05 Errors.log''] world_logged"
  by (simp_all add: openable_def fs_logged_def fs_home_def)

lemma Logger_logged: "fst (Logger False world_logged) = Inr logger_example"
  unfolding Logger_ok [OF mkdir_logged]
  by (simp add: createLogs_init channel_path_sconst openable_logged logger_example_def)

lemma clock_Logger_logged: "clock (snd (Logger False world_logged)) = sconst tm_example"
  unfolding Logger_ok [OF mkdir_logged] by (simp add: createLogs_sel)

lemma Logger_clock:
  assumes "Logger b w = (Inr lg, w')"
  shows "clock w' = stl (stl (stl (clock w)))"
proof -
  from Logger_Inr [OF assms] obtain w1 where
    mk: "create_directories (logDirPath_of b w) w = (Inr (), w1)"
    and w': "w' = snd (createLogs (logDirPath_of b w) logger_init w1)" by blast
  from mk create_directories_sel(1) [of "logDirPath_of b w" w] have "clock w1 = clock w" by simp
  then show ?thesis unfolding w' by (simp add: createLogs_sel)
qed

lemma Logger_streams:
  assumes "Logger b w = (Inr lg, w')" and "target (stream_of ch lg) = Some p"
  shows "p = channel_path (logDirPath_of b w) w ch"
proof -
  from Logger_Inr [OF assms(1)] obtain w1 where
    mk: "create_directories (logDirPath_of b w) w = (Inr (), w1)"
    and lg: "lg = fst (createLogs (logDirPath_of b w) logger_init w1)" by blast
  from mk create_directories_sel(1) [of "logDirPath_of b w" w] have c: "clock w1 = clock w" by simp
  from assms(2) show ?thesis
    unfolding lg by (simp add: createLogs_streams channel_path_clock [OF c] split: if_splits)
qed

lemma world_example_sel [simp]:
  "clock world_example = sconst tm_example"
  "cwd world_example = [''home'', ''u'']"
  by (simp_all add: world_example_def)

lemma date_before_midnight: "strftime ''%Y-%m-%d'' tm_before_midnight = ''2024-12-31''"
  by (simp add: tm_before_midnight_def conversion_def pad2_def dec_int_def dec_nat.simps
      digit_char_def)

lemma date_after_midnight: "strftime ''%Y-%m-%d'' tm_after_midnight = ''2025-01-01''"
  by (simp add: tm_after_midnight_def conversion_def pad2_def dec_int_def dec_nat.simps
      digit_char_def)

lemma mkdir_midnight:
  "create_directories (logDirPath_of False world_midnight) world_midnight =
     (Inr (), world_midnight\<lparr>fsys := fs_home([''home'', ''log''] \<mapsto> Dir)\<rparr>)"
  by (simp add: create_directories_def world_midnight_def world_example_def fs_home_def
      logDirPath_of_def path_append_def parent_path_def)

lemma is_digit_digit_char [simp]: "is_digit (digit_char d)"
  unfolding is_digit_def by (rule digit_char_in)

lemma dec_nat_1: "n < 10 \<Longrightarrow> dec_nat n = [digit_char n]"
  by (subst dec_nat.simps) simp

lemma digit_char_mod [simp]: "digit_char (n mod 10) = digit_char n"
  by (simp add: digit_char_def)

lemma dec_nat_2: "10 \<le> n \<Longrightarrow> n < 100 \<Longrightarrow> dec_nat n = [digit_char (n div 10), digit_char n]"
  by (subst dec_nat.simps) (simp add: dec_nat_1)

lemma dec_nat_3:
  "100 \<le> n \<Longrightarrow> n < 1000 \<Longrightarrow> dec_nat n = [digit_char (n div 100), digit_char (n div 10), digit_char n]"
  by (subst dec_nat.simps) (simp add: dec_nat_2 div_mult2_eq [symmetric])

lemma dec_nat_4:
  "1000 \<le> n \<Longrightarrow> n < 10000 \<Longrightarrow>
     dec_nat n = [digit_char (n div 1000), digit_char (n div 100), digit_char (n div 10), digit_char n]"
  by (subst dec_nat.simps) (simp add: dec_nat_3 div_mult2_eq [symmetric])

lemma pad2_two_digits:
  assumes "0 \<le> i" and "i \<le> 99"
  shows "pad2 i = [digit_char (nat i div 10), digit_char (nat i)]"
proof (cases "i < 10")
  case True
  with assms have "nat i div 10 = 0" by simp
  moreover have "digit_char 0 = CHR ''0''" by (simp add: digit_char_def)
  ultimately show ?thesis using True assms by (simp add: pad2_def dec_int_def dec_nat_1)
next
  case False
  with assms show ?thesis by (simp add: pad2_def dec_int_def dec_nat_2)
qed

lemma time_matches:
  assumes "tm_in_range t"
  shows "matches_pattern ''HH:MM:SS'' (strftime ''%H:%M:%S'' t)"
proof -
  from assms have "pad2 (tm_hour t) = [digit_char (nat (tm_hour t) div 10), digit_char (nat (tm_hour t))]"
    and "pad2 (tm_min t) = [digit_char (nat (tm_min t) div 10), digit_char (nat (tm_min t))]"
    and "pad2 (tm_sec t) = [digit_char (nat (tm_sec t) div 10), digit_char (nat (tm_sec t))]"
    by (simp_all add: tm_in_range_def pad2_two_digits)
  then show ?thesis by (simp add: time_eq del: strftime.simps)
qed

lemma date_matches:
  assumes "tm_in_range t" and "1000 \<le> tm_year t + 1900" and "tm_year t + 1900 \<le> 9999"
  shows "matches_pattern ''YYYY-MM-DD'' (strftime ''%Y-%m-%d'' t)"
proof -
  define y where "y = nat (tm_year t + 1900)"
  from assms have y: "1000 \<le> y" "y < 10000" by (simp_all add: y_def)
  from assms have "dec_int (tm_year t + 1900) = dec_nat y"
    by (simp add: dec_int_def y_def)
  with dec_nat_4 [OF y] have
    "dec_int (tm_year t + 1900) =
       [digit_char (y div 1000), digit_char (y div 100), digit_char (y div 10), digit_char y]"
    by simp
  moreover from assms have
    "pad2 (tm_mon t + 1) = [digit_char (nat (tm_mon t + 1) div 10), digit_char (nat (tm_mon t + 1))]"
    and "pad2 (tm_mday t) = [digit_char (nat (tm_mday t) div 10), digit_char (nat (tm_mday t))]"
    by (simp_all add: tm_in_range_def pad2_two_digits)
  ultimately show ?thesis by (simp add: date_eq del: strftime.simps)
qed

lemma Logger_targets_distinct:
  assumes "Logger b w = (Inr lg, w')" and "target (stream_of ch lg) = Some p" and "ch' \<noteq> ch"
  shows "target (stream_of ch' lg) \<noteq> Some p"
proof
  assume "target (stream_of ch' lg) = Some p"
  from Logger_streams [OF assms(1) this] Logger_streams [OF assms(1,2)]
  have "channel_path (logDirPath_of b w) w ch' = channel_path (logDirPath_of b w) w ch" by simp
  with channel_path_neq [OF assms(3)] show False by blast
qed

lemma write_on_is_file:
  assumes "\<exists>x. fsys w q = Some (File x)"
  shows "\<exists>x. fsys (snd (write_on ch msg lg w)) q = Some (File x)"
proof (cases "stream_of ch lg")
  case None
  with assms show ?thesis by (simp add: write_on_closed)
next
  case (Some s)
  obtain p buf where s: "s = (p, buf)" by (cases s)
  from write_on_open [of ch lg p buf msg w] Some s obtain s1 s2 where
    e: "snd (write_on ch msg lg w) = file_append p s2 (file_append p s1 (w\<lparr>clock := stl (clock w)\<rparr>))"
    by auto
  from assms have "\<exists>x. fsys (w\<lparr>clock := stl (clock w)\<rparr>) q = Some (File x)" by simp
  then show ?thesis unfolding e by (intro file_append_is_file)
qed

lemma do_call_is_file:
  assumes "\<exists>x. fsys w q = Some (File x)"
  shows "\<exists>x. fsys (snd (do_call c lg w)) q = Some (File x)"
  using write_on_is_file [OF assms] by (cases c) (simp_all add: writeLine_on_eq)

lemma do_calls_is_file:
  "\<exists>x. fsys w q = Some (File x) \<Longrightarrow> \<exists>x. fsys (snd (do_calls cs lg w)) q = Some (File x)"
proof (induction cs arbitrary: lg w)
  case Nil
  then show ?case by simp
next
  case (Cons c cs)
  obtain r w' where r: "do_call c lg w = (r, w')" by (cases "do_call c lg w")
  with do_call_targets [of c lg w] obtain lg1 where lg1: "r = Inr lg1" by auto
  from do_call_is_file [OF Cons.prems, of c lg] r have "\<exists>x. fsys w' q = Some (File x)" by simp
  from Cons.IH [OF this, of lg1] r lg1 show ?case by simp
qed

text \<open>
  The streams of a logger that the constructor made are open on three different paths,
  and each of the paths holds a file, whatever has been written through the logger since.
\<close>

lemma open_stream_names_file:
  assumes "Logger b w0 = (Inr lg, w1)" and "do_calls cs lg w1 = (Inr lg', w')"
    and "target (stream_of ch lg') = Some p"
  shows "(\<exists>content. fsys w' p = Some (File content)) \<and>
         (\<forall>ch'. ch' \<noteq> ch \<longrightarrow> target (stream_of ch' lg') \<noteq> Some p)"
proof -
  from do_calls_targets [of cs lg w1] assms(2)
  have t: "target (stream_of c lg') = target (stream_of c lg)" for c by simp
  from assms(3) have tp: "target (stream_of ch lg) = Some p" by (simp add: t)
  then obtain b0 where s: "stream_of ch lg = Some (p, b0)"
    by (cases "stream_of ch lg") (auto simp: target_def)
  from Logger_Inr [OF assms(1)] obtain v where
    lg: "lg = fst (createLogs (logDirPath_of b w0) logger_init v)"
    and w1: "w1 = snd (createLogs (logDirPath_of b w0) logger_init v)" by blast
  from s have "\<exists>x. fsys w1 p = Some (File x)"
    unfolding lg w1 by (rule createLogs_files)
  from do_calls_is_file [OF this, of cs lg] assms(2)
  have "\<exists>content. fsys w' p = Some (File content)" by simp
  moreover have "target (stream_of ch' lg') \<noteq> Some p" if "ch' \<noteq> ch" for ch'
    unfolding t by (rule Logger_targets_distinct [OF assms(1) tp that])
  ultimately show ?thesis by blast
qed

text \<open>
  The same with the file in view: what the file holds after a write, followed by what the
  stream holds, is what was there before followed by the time, a space and the message;
  and the destructor brings the file to exactly that.
\<close>

lemma write_on_open_file:
  assumes "stream_of ch lg = Some (p, buf)" and "fsys w p = Some (File content)"
  shows "\<exists>buf' content'.
     write_on ch msg lg w =
       (Inr (set_stream ch (Some (p, buf')) lg),
        w\<lparr>clock := stl (clock w), fsys := (fsys w)(p \<mapsto> File content')\<rparr>) \<and>
     content' @ buf' = content @ buf @ strftime ''%H:%M:%S'' (shd (clock w)) @ '' '' @ msg"
proof -
  from write_on_open [OF assms(1), of msg w] obtain s1 s2 buf' where
    wr: "write_on ch msg lg w =
       (Inr (set_stream ch (Some (p, buf')) lg),
        file_append p s2 (file_append p s1 (w\<lparr>clock := stl (clock w)\<rparr>)))"
    and eq: "s1 @ s2 @ buf' = buf @ strftime ''%H:%M:%S'' (shd (clock w)) @ '' '' @ msg"
    by blast
  have "fsys (w\<lparr>clock := stl (clock w)\<rparr>) p = Some (File content)"
    using assms(2) by simp
  from file_append_twice [OF this, of s2 s1]
  have "file_append p s2 (file_append p s1 (w\<lparr>clock := stl (clock w)\<rparr>)) =
      w\<lparr>clock := stl (clock w), fsys := (fsys w)(p \<mapsto> File (content @ s1 @ s2))\<rparr>"
    by simp
  with wr eq show ?thesis by (intro exI [of _ buf'] exI [of _ "content @ s1 @ s2"]) simp
qed

lemma destroy_after_write:
  assumes "stream_of ch lg = Some (p, buf)"
    and "\<forall>ch'. ch' \<noteq> ch \<longrightarrow> target (stream_of ch' lg) \<noteq> Some p"
  shows "fsys (snd (Logger_destroy (set_stream ch (Some (p, buf')) lg)
                 (w\<lparr>clock := c, fsys := (fsys w)(p \<mapsto> File content')\<rparr>))) p
          = Some (File (content' @ buf'))"
proof (rule Logger_destroy_own)
  show "stream_of ch (set_stream ch (Some (p, buf')) lg) = Some (p, buf')"
    by (simp add: stream_of_set_stream)
  show "fsys (w\<lparr>clock := c, fsys := (fsys w)(p \<mapsto> File content')\<rparr>) p = Some (File content')"
    by simp
  show "\<forall>ch'. ch' \<noteq> ch \<longrightarrow> target (stream_of ch' (set_stream ch (Some (p, buf')) lg)) \<noteq> Some p"
    using assms(2) by (simp add: stream_of_set_stream)
qed

lemma is_open_target: "is_open s = (target s \<noteq> None)"
  by (simp add: is_open_def target_def)

section \<open>The claims\<close>

subsection \<open>Writing\<close>



text \<open>
  Claim C3. For every message and every channel whose stream is not open, a write (plain
  or line variant) returns normally with the logger as it was, leaves the file system and
  the clock untouched, and adds exactly one line, the channel's diagnostic, to the
  standard error stream.
\<close>

theorem write_to_unopened_channel:
  assumes "\<not> is_open (stream_of ch lg)"
  shows "write_on ch m lg w = (Inr lg, w\<lparr>stderr := stderr w @ [not_open_line ch]\<rparr>) \<and>
         writeLine_on ch m lg w = (Inr lg, w\<lparr>stderr := stderr w @ [not_open_line ch]\<rparr>)"
  using assms
  by (cases "stream_of ch lg") (simp_all add: is_open_def writeLine_on_eq write_on_closed)

theorem write_to_unopened_channel_witness:
  "\<not> is_open (stream_of Warning logger_info_only) \<and>
   write_on Warning ''disk low'' logger_info_only world_logged =
     (Inr logger_info_only, world_logged\<lparr>stderr := [''Error: warning log file is not open.'']\<rparr>) \<and>
   writeLine_on Warning ''disk low'' logger_info_only world_logged =
     (Inr logger_info_only, world_logged\<lparr>stderr := [''Error: warning log file is not open.'']\<rparr>)"
proof -
  have n: "\<not> is_open (stream_of Warning logger_info_only)"
    by (simp add: logger_info_only_def is_open_def)
  have e: "stderr world_logged = []"
    by (simp add: world_logged_def world_example_def)
  from write_to_unopened_channel [OF n, of "''disk low''" world_logged] n show ?thesis
    by (simp add: e)
qed

subsection \<open>Construction\<close>

text \<open>
  Claim C2, amended. \<open>createLogs\<close> calls \<open>currentDateFormatted\<close> three times, and
  each call reads the clock: a construction reads the clock three times, once for each
  file name; the file of each channel that is opened lies in the log directory and is named
  by the date that \<open>currentDateFormatted\<close> gives at the channel's own reading (the first
  for the main log, the second for the warnings, the third for the errors), followed by
  the channel's suffix. When the three readings give one date \<open>d\<close>, the names are
  \<open>d.log\<close>, \<open>d Warnings.log\<close> and \<open>d Errors.log\<close>. No later call changes the file a
  stream is open on.
\<close>

theorem file_names_carry_date_of_own_reading:
  assumes "Logger b w = (Inr lg, w')"
  shows "clock w' = stl (stl (stl (clock w))) \<and>
     (\<forall>ch p. target (stream_of ch lg) = Some p \<longrightarrow>
        p = path_append (logDirPath_of b w)
              (fst (currentDateFormatted (w\<lparr>clock := reading_of ch (clock w) ## clock w\<rparr>))
                 @ suffix_of ch)) \<and>
     (\<forall>d. (\<forall>ch. strftime ''%Y-%m-%d'' (reading_of ch (clock w)) = d) \<longrightarrow>
        (\<forall>ch p. target (stream_of ch lg) = Some p \<longrightarrow>
           p = path_append (logDirPath_of b w) (d @ suffix_of ch))) \<and>
     (\<forall>cs v. \<exists>lg'. fst (do_calls cs lg v) = Inr lg' \<and>
        (\<forall>ch. target (stream_of ch lg') = target (stream_of ch lg)))"
proof -
  have n: "p = path_append (logDirPath_of b w)
      (strftime ''%Y-%m-%d'' (reading_of ch (clock w)) @ suffix_of ch)"
    if "target (stream_of ch lg) = Some p" for ch p
    using Logger_streams [OF assms that] by (simp only: channel_path_def)
  then have "\<forall>ch p. target (stream_of ch lg) = Some p \<longrightarrow>
        p = path_append (logDirPath_of b w)
              (fst (currentDateFormatted (w\<lparr>clock := reading_of ch (clock w) ## clock w\<rparr>))
                 @ suffix_of ch)"
    by (simp add: read_date del: strftime.simps)
  moreover from n have "\<forall>d. (\<forall>ch. strftime ''%Y-%m-%d'' (reading_of ch (clock w)) = d) \<longrightarrow>
        (\<forall>ch p. target (stream_of ch lg) = Some p \<longrightarrow>
           p = path_append (logDirPath_of b w) (d @ suffix_of ch))"
    by metis
  ultimately show ?thesis
    using Logger_clock [OF assms] do_calls_targets by blast
qed

theorem file_names_carry_date_of_own_reading_witness:
  "Logger False world_example = (Inr logger_example, snd (Logger False world_example)) \<and>
   (\<forall>ch. strftime ''%Y-%m-%d'' (reading_of ch (clock world_example)) = ''2024-03-05'') \<and>
   target (stream_of Warning logger_example) = Some [''home'', ''log'', ''2024-03-05 Warnings.log''] \<and>
   [''home'', ''log'', ''2024-03-05 Warnings.log'']
     = path_append (logDirPath_of False world_example) (''2024-03-05'' @ suffix_of Warning) \<and>
   clock (snd (Logger False world_example)) = stl (stl (stl (clock world_example)))"
proof -
  have l: "Logger False world_example = (Inr logger_example, snd (Logger False world_example))"
    by (simp add: Logger_example)
  have d: "\<forall>ch. strftime ''%Y-%m-%d'' (reading_of ch (clock world_example)) = ''2024-03-05''"
  proof
    fix ch show "strftime ''%Y-%m-%d'' (reading_of ch (clock world_example)) = ''2024-03-05''"
      by (cases ch) (simp_all add: date_example del: strftime.simps)
  qed
  have s: "target (stream_of Warning logger_example) = Some [''home'', ''log'', ''2024-03-05 Warnings.log'']"
    by (simp add: logger_example_def)
  note t = file_names_carry_date_of_own_reading [OF l]
  from t have c: "clock (snd (Logger False world_example)) = stl (stl (stl (clock world_example)))"
    by (rule conjunct1)
  from t have "\<forall>d. (\<forall>ch. strftime ''%Y-%m-%d'' (reading_of ch (clock world_example)) = d) \<longrightarrow>
        (\<forall>ch p. target (stream_of ch logger_example) = Some p \<longrightarrow>
           p = path_append (logDirPath_of False world_example) (d @ suffix_of ch))"
    by (elim conjE)
  from this [rule_format, OF d [rule_format] s] l d s c show ?thesis
    by (intro conjI)
qed

text \<open>
  As claim C2 is written, the date is computed once and the three file names carry the
  same date. That fails: when midnight of 31 December 2024 falls between the first and
  the second reading of the clock, the main log is named after one day and the other two
  files after the next.
\<close>

theorem single_date_counterexample:
  "fst (Logger False world_midnight) =
     Inr \<lparr>logFile = Some ([''home'', ''log'', ''2024-12-31.log''], []),
          warningLogFile = Some ([''home'', ''log'', ''2025-01-01 Warnings.log''], []),
          errorLogFile = Some ([''home'', ''log'', ''2025-01-01 Errors.log''], [])\<rparr>"
proof -
  define w1 where "w1 = world_midnight\<lparr>fsys := fs_home([''home'', ''log''] \<mapsto> Dir)\<rparr>"
  define dir where "dir = logDirPath_of False world_midnight"
  have dir: "dir = [''home'', ''log'']"
    by (simp add: dir_def logDirPath_of_def path_append_def parent_path_def world_midnight_def)
  have c: "clock w1 = tm_before_midnight ## sconst tm_after_midnight"
    and f: "fsys w1 = fs_home([''home'', ''log''] \<mapsto> Dir)" and l: "locked w1 = {}"
    by (simp_all add: w1_def world_midnight_def world_example_def)
  have p: "channel_path dir w1 Info = [''home'', ''log'', ''2024-12-31.log'']"
    "channel_path dir w1 Warning = [''home'', ''log'', ''2025-01-01 Warnings.log'']"
    "channel_path dir w1 Error = [''home'', ''log'', ''2025-01-01 Errors.log'']"
    by (simp_all add: channel_path_def path_append_def c dir date_before_midnight
        date_after_midnight del: strftime.simps)
  have o: "openable [''home'', ''log'', ''2024-12-31.log''] w1"
    "openable [''home'', ''log'', ''2025-01-01 Warnings.log''] w1"
    "openable [''home'', ''log'', ''2025-01-01 Errors.log''] w1"
    by (simp_all add: openable_def f l fs_home_def)
  show ?thesis
    unfolding Logger_ok [OF mkdir_midnight] w1_def [symmetric] dir_def [symmetric]
    by (simp add: createLogs_init p o)
qed

text \<open>
  Claim C4. If \<open>create_directories\<close> throws on the log directory, the constructor ends
  with that exception: \<open>createLogs\<close> is not reached, so no logger and no open stream
  comes into being, every file of the world afterwards was there before with the same
  contents, and nothing is written to the standard error stream.
\<close>

theorem directory_creation_failure_propagates:
  assumes "fst (create_directories (logDirPath_of b w) w) = Inl e"
  shows "fst (Logger b w) = Inl e \<and>
         (\<forall>p content. fsys (snd (Logger b w)) p = Some (File content) \<longrightarrow>
                        fsys w p = Some (File content)) \<and>
         stderr (snd (Logger b w)) = stderr w"
  using create_directories_files [of "logDirPath_of b w" w]
  by (simp add: Logger_fail [OF assms] create_directories_sel)

theorem directory_creation_failure_propagates_witness:
  "fst (create_directories (logDirPath_of False world_readonly) world_readonly)
     = Inl (filesystem_error permission_denied) \<and>
   fst (Logger False world_readonly) = Inl (filesystem_error permission_denied) \<and>
   fsys (snd (Logger False world_readonly)) = fs_home \<and>
   stderr (snd (Logger False world_readonly)) = stderr world_readonly"
proof -
  have f: "fst (create_directories (logDirPath_of False world_readonly) world_readonly)
     = Inl (filesystem_error permission_denied)"
    by (simp add: mkdir_readonly)
  have "fsys (snd (Logger False world_readonly)) = fs_home"
    by (simp add: Logger_fail [OF f] mkdir_readonly) (simp add: world_readonly_def world_example_def)
  with directory_creation_failure_propagates [OF f] f show ?thesis by simp
qed

text \<open>
  Claim C5. Once the log directory is there, the constructor returns a logger whatever
  the three opens do. Each channel is open exactly if its own file could be opened in the
  world as it was before any of the three opens, so no channel's outcome depends on
  another's; and the standard error stream grows by exactly one line for each channel
  that is not open.
\<close>

theorem channel_open_failures_are_independent:
  assumes "create_directories (logDirPath_of b w) w = (Inr (), w1)"
  shows "\<exists>lg w'. Logger b w = (Inr lg, w') \<and>
           (\<forall>ch. is_open (stream_of ch lg)
                  = openable (channel_path (logDirPath_of b w) w1 ch) w1) \<and>
           (\<exists>lines. stderr w' = stderr w @ lines \<and>
              length lines = length (filter (\<lambda>ch. \<not> is_open (stream_of ch lg))
                                      [Info, Warning, Error]))"
proof -
  define lg where "lg = fst (createLogs (logDirPath_of b w) logger_init w1)"
  define w' where "w' = snd (createLogs (logDirPath_of b w) logger_init w1)"
  have L: "Logger b w = (Inr lg, w')"
    unfolding lg_def w'_def by (rule Logger_ok [OF assms])
  have o: "\<forall>ch. is_open (stream_of ch lg) = openable (channel_path (logDirPath_of b w) w1 ch) w1"
    unfolding lg_def by (simp add: createLogs_is_open)
  have "\<exists>lines. stderr w' = stderr w @ lines \<and>
      length lines = length (filter (\<lambda>ch. \<not> is_open (stream_of ch lg)) [Info, Warning, Error])"
    unfolding Logger_stderr [OF L] by simp
  with L o show ?thesis by blast
qed

theorem channel_open_failures_are_independent_witness:
  "create_directories (logDirPath_of False world_info_locked) world_info_locked
     = (Inr (), world_info_locked) \<and>
   fst (Logger False world_info_locked) = Inr logger_info_failed \<and>
   \<not> is_open (stream_of Info logger_info_failed) \<and>
   is_open (stream_of Warning logger_info_failed) \<and>
   is_open (stream_of Error logger_info_failed) \<and>
   length (stderr (snd (Logger False world_info_locked))) = 1"
proof -
  have n: "\<not> is_open (stream_of Info logger_info_failed)"
    "is_open (stream_of Warning logger_info_failed)"
    "is_open (stream_of Error logger_info_failed)"
    by (simp_all add: logger_info_failed_def is_open_def)
  from channel_open_failures_are_independent [OF mkdir_info_locked]
  obtain lg w' lines where
    L: "Logger False world_info_locked = (Inr lg, w')"
    and e: "stderr w' = stderr world_info_locked @ lines"
    and c: "length lines = length (filter (\<lambda>ch. \<not> is_open (stream_of ch lg)) [Info, Warning, Error])"
    by blast
  from L Logger_info_locked have lg: "lg = logger_info_failed" and w': "w' = snd (Logger False world_info_locked)"
    by simp_all
  from c n have "length lines = 1" unfolding lg by simp
  with e have "length (stderr (snd (Logger False world_info_locked))) = 1"
    unfolding w' by simp
  with mkdir_info_locked L n show ?thesis unfolding lg by simp
qed

text \<open>
  Claim C7. When the log directory exists already, the constructor does not throw and
  every file and directory keeps what it holds. Where the file a channel's name stands
  for exists and is writable, the channel is opened on it with its contents kept, and a
  line written through the new logger stands after them once that logger is destroyed.
  A logger constructed before with the same working directory and a reading of the same
  day names the same file: what is in the file when the second logger is constructed,
  such as the lines that the first logger's destructor has brought there, comes first.
\<close>

theorem construction_keeps_existing_logs:
  assumes "fsys w (logDirPath_of b w) = Some Dir"
  shows "\<exists>lg w'. Logger b w = (Inr lg, w') \<and>
     (\<forall>p n. fsys w p = Some n \<longrightarrow> fsys w' p = Some n) \<and>
     (\<forall>ch p content.
        p = channel_path (logDirPath_of b w) w ch \<and> fsys w p = Some (File content) \<and> p \<notin> locked w
        \<longrightarrow> stream_of ch lg = Some (p, []) \<and> fsys w' p = Some (File content) \<and>
            (\<forall>m. \<exists>lg1 w1. writeLine_on ch m lg w' = (Inr lg1, w1) \<and>
               fst (Logger_destroy lg1 w1) = Inr logger_init \<and>
               fsys (snd (Logger_destroy lg1 w1)) p =
                 Some (File (content @ fst (currentTimeFormatted w') @ '' '' @ m @ [CHR 0x0A])))) \<and>
     (\<forall>w0 ch. cwd w0 = cwd w \<and>
        strftime ''%Y-%m-%d'' (reading_of ch (clock w0))
          = strftime ''%Y-%m-%d'' (reading_of ch (clock w))
        \<longrightarrow> channel_path (logDirPath_of b w0) w0 ch = channel_path (logDirPath_of b w) w ch)"
proof -
  define dir where "dir = logDirPath_of b w"
  define lg where "lg = fst (createLogs dir logger_init w)"
  define w' where "w' = snd (createLogs dir logger_init w)"
  from assms have mk: "create_directories (logDirPath_of b w) w = (Inr (), w)"
    by (rule create_directories_exists)
  have L: "Logger b w = (Inr lg, w')"
    unfolding lg_def w'_def dir_def by (rule Logger_ok [OF mk])
  have keep: "fsys w' p = Some n" if "fsys w p = Some n" for p n
    using Logger_keeps [OF L that] .
  have again: "stream_of ch lg = Some (p, []) \<and> fsys w' p = Some (File content) \<and>
      (\<forall>m. \<exists>lg1 w1. writeLine_on ch m lg w' = (Inr lg1, w1) \<and>
         fst (Logger_destroy lg1 w1) = Inr logger_init \<and>
         fsys (snd (Logger_destroy lg1 w1)) p =
           Some (File (content @ fst (currentTimeFormatted w') @ '' '' @ m @ [CHR 0x0A])))"
    if p: "p = channel_path (logDirPath_of b w) w ch"
      and f: "fsys w p = Some (File content)" and l: "p \<notin> locked w"
    for ch p content
  proof -
    from f l have "openable p w" by (simp add: openable_def)
    then have s: "stream_of ch lg = Some (p, [])"
      unfolding lg_def dir_def p by (simp add: createLogs_streams)
    then have tp: "target (stream_of ch lg) = Some p" by simp
    from keep [OF f] have f': "fsys w' p = Some (File content)" .
    have d: "\<forall>ch'. ch' \<noteq> ch \<longrightarrow> target (stream_of ch' lg) \<noteq> Some p"
      using Logger_targets_distinct [OF L tp] by blast
    have "\<exists>lg1 w1. writeLine_on ch m lg w' = (Inr lg1, w1) \<and>
         fst (Logger_destroy lg1 w1) = Inr logger_init \<and>
         fsys (snd (Logger_destroy lg1 w1)) p =
           Some (File (content @ fst (currentTimeFormatted w') @ '' '' @ m @ [CHR 0x0A]))" for m
    proof -
      from write_on_open_file [OF s f', of "m @ [CHR 0x0A]"] obtain buf' content' where
        wr: "writeLine_on ch m lg w' =
           (Inr (set_stream ch (Some (p, buf')) lg),
            w'\<lparr>clock := stl (clock w'), fsys := (fsys w')(p \<mapsto> File content')\<rparr>)"
        and eq: "content' @ buf' = content @ fst (currentTimeFormatted w') @ '' '' @ m @ [CHR 0x0A]"
        by (auto simp: writeLine_on_eq read_time simp del: strftime.simps)
      have "fsys (snd (Logger_destroy (set_stream ch (Some (p, buf')) lg)
                 (w'\<lparr>clock := stl (clock w'), fsys := (fsys w')(p \<mapsto> File content')\<rparr>))) p
          = Some (File (content' @ buf'))"
        by (rule destroy_after_write [OF s d])
      with wr eq show ?thesis
        by (intro exI [of _ "set_stream ch (Some (p, buf')) lg"]
            exI [of _ "w'\<lparr>clock := stl (clock w'), fsys := (fsys w')(p \<mapsto> File content')\<rparr>"])
          (simp add: Logger_destroy_eq)
    qed
    with s f' show ?thesis by blast
  qed
  from L keep again channel_path_same_day show ?thesis by blast
qed

theorem construction_keeps_existing_logs_witness:
  "fsys world_logged (logDirPath_of False world_logged) = Some Dir \<and>
   fsys world_logged [''home'', ''log'', ''2024-03-05.log''] = Some (File ''old'') \<and>
   [''home'', ''log'', ''2024-03-05.log''] \<notin> locked world_logged \<and>
   fst (Logger False world_logged) = Inr logger_example \<and>
   stream_of Info logger_example = Some ([''home'', ''log'', ''2024-03-05.log''], []) \<and>
   fsys (snd (Logger False world_logged)) [''home'', ''log'', ''2024-03-05.log'']
     = Some (File ''old'') \<and>
   (\<exists>lg1 w1.
      writeLine_on Info ''again'' logger_example (snd (Logger False world_logged)) = (Inr lg1, w1) \<and>
      fsys (snd (Logger_destroy lg1 w1)) [''home'', ''log'', ''2024-03-05.log'']
        = Some (File (''old14:07:09 again'' @ [CHR 0x0A])))"
proof -
  define p where "p = [''home'', ''log'', ''2024-03-05.log'']"
  have d: "fsys world_logged (logDirPath_of False world_logged) = Some Dir"
    by (simp add: fs_logged_dir)
  have f: "fsys world_logged p = Some (File ''old'')"
    by (simp add: fs_logged_def p_def)
  have l: "p \<notin> locked world_logged" by simp
  have c: "p = channel_path (logDirPath_of False world_logged) world_logged Info"
    by (simp add: channel_path_sconst p_def)
  from construction_keeps_existing_logs [OF d] obtain lg w' where
    L: "Logger False world_logged = (Inr lg, w')"
    and k: "\<forall>p n. fsys world_logged p = Some n \<longrightarrow> fsys w' p = Some n"
    and a: "\<forall>ch p content.
        p = channel_path (logDirPath_of False world_logged) world_logged ch \<and>
        fsys world_logged p = Some (File content) \<and> p \<notin> locked world_logged
        \<longrightarrow> stream_of ch lg = Some (p, []) \<and> fsys w' p = Some (File content) \<and>
            (\<forall>m. \<exists>lg1 w1. writeLine_on ch m lg w' = (Inr lg1, w1) \<and>
               fst (Logger_destroy lg1 w1) = Inr logger_init \<and>
               fsys (snd (Logger_destroy lg1 w1)) p =
                 Some (File (content @ fst (currentTimeFormatted w') @ '' '' @ m @ [CHR 0x0A])))"
    by (elim exE conjE) (rule that)
  from L have "fst (Logger False world_logged) = Inr lg" and w': "w' = snd (Logger False world_logged)"
    by simp_all
  with Logger_logged have lg: "lg = logger_example"
    by simp
  have t: "fst (currentTimeFormatted w') = ''14:07:09''"
    unfolding w' by (simp add: read_time clock_Logger_logged time_example del: strftime.simps)
  note a' = a [rule_format, OF conjI [OF c conjI [OF f l]]]
  from a' have r1: "stream_of Info lg = Some (p, [])" by (rule conjunct1)
  from a' have r2: "fsys w' p = Some (File ''old'')" by (elim conjE)
  from a' have "\<forall>m. \<exists>lg1 w1. writeLine_on Info m lg w' = (Inr lg1, w1) \<and>
       fst (Logger_destroy lg1 w1) = Inr logger_init \<and>
       fsys (snd (Logger_destroy lg1 w1)) p =
         Some (File (''old'' @ fst (currentTimeFormatted w') @ '' '' @ m @ [CHR 0x0A]))"
    by (elim conjE)
  then obtain lg1 w1 where
    wr: "writeLine_on Info ''again'' lg w' = (Inr lg1, w1)"
    and fin: "fsys (snd (Logger_destroy lg1 w1)) p =
         Some (File (''old'' @ fst (currentTimeFormatted w') @ '' '' @ ''again'' @ [CHR 0x0A]))"
    by (elim allE [of _ "''again''"] exE conjE) (rule that)
  from fin have fin': "fsys (snd (Logger_destroy lg1 w1)) p
      = Some (File (''old14:07:09 again'' @ [CHR 0x0A]))"
    unfolding t by simp
  from wr fin' have r3: "\<exists>lg1 w1. writeLine_on Info ''again'' lg w' = (Inr lg1, w1) \<and>
      fsys (snd (Logger_destroy lg1 w1)) p = Some (File (''old14:07:09 again'' @ [CHR 0x0A]))"
    by blast
  from d f l Logger_logged r1 r2 r3 show ?thesis
    unfolding lg w' p_def by (intro conjI)
qed

text \<open>
  Claim C8. The flag \<^verbatim>\<open>true\<close> selects \<^verbatim>\<open>cwd/log\<close>, the flag \<^verbatim>\<open>false\<close> and the default
  value of the parameter select \<^verbatim>\<open>parent(cwd)/log\<close>. After a construction that returns,
  the selected path is a directory and every stream that is open is open on a file
  directly in it.
\<close>

theorem log_directory_selection:
  assumes "Logger b w = (Inr lg, w')"
  shows "logDirPath_of True w = path_append (cwd w) ''log'' \<and>
         logDirPath_of False w = path_append (parent_path (cwd w)) ''log'' \<and>
         logDirPath_of isSubdirectory_default w = path_append (parent_path (cwd w)) ''log'' \<and>
         fsys w' (logDirPath_of b w) = Some Dir \<and>
         (\<forall>ch p. target (stream_of ch lg) = Some p \<longrightarrow> parent_path p = logDirPath_of b w)"
proof -
  from Logger_Inr [OF assms] obtain w1 where
    mk: "create_directories (logDirPath_of b w) w = (Inr (), w1)"
    and lg: "lg = fst (createLogs (logDirPath_of b w) logger_init w1)"
    and w': "w' = snd (createLogs (logDirPath_of b w) logger_init w1)" by blast
  have ne: "logDirPath_of b w \<noteq> []"
    by (simp add: logDirPath_of_def path_append_def)
  from mk have "fst (create_directories (logDirPath_of b w) w) = Inr ()" by simp
  from create_directories_ok [OF this ne] mk have "fsys w1 (logDirPath_of b w) = Some Dir"
    by simp
  then have d: "fsys w' (logDirPath_of b w) = Some Dir"
    unfolding w' by (rule createLogs_keeps)
  have s: "parent_path p = logDirPath_of b w" if "target (stream_of ch lg) = Some p" for ch p
    using Logger_streams [OF assms that]
    by (simp add: channel_path_def path_append_def parent_path_def del: strftime.simps)
  from d s show ?thesis
    by (simp add: logDirPath_of_def isSubdirectory_default_def)
qed

theorem log_directory_selection_witness:
  "Logger False world_example = (Inr logger_example, snd (Logger False world_example)) \<and>
   logDirPath_of isSubdirectory_default world_example = [''home'', ''log''] \<and>
   logDirPath_of True world_example = [''home'', ''u'', ''log''] \<and>
   fsys (snd (Logger False world_example)) [''home'', ''log''] = Some Dir \<and>
   target (stream_of Warning logger_example) = Some [''home'', ''log'', ''2024-03-05 Warnings.log''] \<and>
   parent_path [''home'', ''log'', ''2024-03-05 Warnings.log''] = [''home'', ''log'']"
proof -
  have l: "Logger False world_example = (Inr logger_example, snd (Logger False world_example))"
    by (simp add: Logger_example)
  have s: "target (stream_of Warning logger_example) = Some [''home'', ''log'', ''2024-03-05 Warnings.log'']"
    by (simp add: logger_example_def)
  have d: "logDirPath_of isSubdirectory_default world_example = [''home'', ''log'']"
    by (simp add: isSubdirectory_default_def)
  from log_directory_selection [OF l]
  have "fsys (snd (Logger False world_example)) (logDirPath_of False world_example) = Some Dir"
    by blast
  then have f: "fsys (snd (Logger False world_example)) [''home'', ''log''] = Some Dir"
    by simp
  from l d f s show ?thesis
    by (simp add: parent_path_def)
qed

text \<open>
  Claim C10. When the main log is not open after a construction, the line reported for
  it on the standard error stream names the path of the warnings file: the lines added
  are the one for the warnings file if that failed, then the same line for the main log,
  then the one for the errors file if that failed. The line that would name the main
  log's own path differs from each of them.
\<close>

theorem info_failure_reports_warnings_path:
  assumes "Logger b w = (Inr lg, w')" and "\<not> is_open (logFile lg)"
  shows "stderr w' = stderr w
           @ (if is_open (warningLogFile lg) then []
              else [open_failed_line (channel_path (logDirPath_of b w) w Warning)])
           @ [open_failed_line (channel_path (logDirPath_of b w) w Warning)]
           @ (if is_open (errorLogFile lg) then []
              else [open_failed_line (channel_path (logDirPath_of b w) w Error)]) \<and>
         open_failed_line (channel_path (logDirPath_of b w) w Info)
           \<noteq> open_failed_line (channel_path (logDirPath_of b w) w Warning) \<and>
         open_failed_line (channel_path (logDirPath_of b w) w Info)
           \<noteq> open_failed_line (channel_path (logDirPath_of b w) w Error)"
  using Logger_stderr [OF assms(1)] assms(2)
    open_failed_line_channels [of Info Warning] open_failed_line_channels [of Info Error]
  by simp

theorem info_failure_reports_warnings_path_witness:
  "Logger False world_info_locked = (Inr logger_info_failed, snd (Logger False world_info_locked)) \<and>
   \<not> is_open (logFile logger_info_failed) \<and>
   stderr (snd (Logger False world_info_locked)) =
     [''Error: failed to open log file at '' @ CHR 0x22 # ''/home/log/2024-03-05 Warnings.log''
        @ [CHR 0x22]]"
proof -
  have n: "\<not> is_open (logFile logger_info_failed)"
    "is_open (warningLogFile logger_info_failed)"
    "is_open (errorLogFile logger_info_failed)"
    by (simp_all add: logger_info_failed_def is_open_def)
  from info_failure_reports_warnings_path [OF Logger_info_locked n(1)] n
  have "stderr (snd (Logger False world_info_locked)) =
      [open_failed_line [''home'', ''log'', ''2024-03-05 Warnings.log'']]"
    by (simp add: channel_path_sconst)
  with Logger_info_locked n(1) show ?thesis
    by (simp only: warnings_line) simp
qed

subsection \<open>The life of a channel\<close>

text \<open>
  Claim C6. At construction each channel becomes open or stays closed, as its file can
  be opened or not. No sequence of calls of the writers throws, opens a stream or closes
  one: every stream stays open on its path or stays closed, also after the destructor.
  The destructor leaves all three streams closed whichever of them were open: an open
  stream's file receives what the stream still holds, every path that no stream is open
  on is left as it is (so with no stream open, nothing changes), and the clock, the
  standard error stream, the working directory and the permissions stay as they are. A
  write on a channel that is not open returns the logger as it is and adds the channel's
  diagnostic, one line, to the standard error stream, and nothing else.
\<close>

theorem channel_lifecycle:
  "(\<forall>ch. is_open (stream_of ch (fst (createLogs dir logger_init w)))
           = openable (channel_path dir w ch) w) \<and>
   (\<forall>cs v. \<exists>lg'. fst (do_calls cs lg v) = Inr lg' \<and>
      (\<forall>ch. target (stream_of ch lg') = target (stream_of ch lg) \<and>
            is_open (stream_of ch lg') = is_open (stream_of ch lg))) \<and>
   (\<forall>v. fst (Logger_destroy lg v) = Inr logger_init \<and>
      clock (snd (Logger_destroy lg v)) = clock v \<and>
      stderr (snd (Logger_destroy lg v)) = stderr v \<and>
      cwd (snd (Logger_destroy lg v)) = cwd v \<and>
      locked (snd (Logger_destroy lg v)) = locked v \<and>
      (\<forall>q. (\<forall>ch. target (stream_of ch lg) \<noteq> Some q) \<longrightarrow>
         fsys (snd (Logger_destroy lg v)) q = fsys v q) \<and>
      (\<forall>ch p buf content.
         stream_of ch lg = Some (p, buf) \<and> fsys v p = Some (File content) \<and>
         (\<forall>ch'. ch' \<noteq> ch \<longrightarrow> target (stream_of ch' lg) \<noteq> Some p)
         \<longrightarrow> fsys (snd (Logger_destroy lg v)) p = Some (File (content @ buf)))) \<and>
   (\<forall>v. Logger_destroy logger_init v = (Inr logger_init, v)) \<and>
   (\<forall>ch. stream_of ch logger_init = None) \<and>
   (\<forall>ch m v. \<not> is_open (stream_of ch lg) \<longrightarrow>
      write_on ch m lg v = (Inr lg, v\<lparr>stderr := stderr v @ [not_open_line ch]\<rparr>) \<and>
      writeLine_on ch m lg v = (Inr lg, v\<lparr>stderr := stderr v @ [not_open_line ch]\<rparr>))"
proof -
  have i: "stream_of ch logger_init = None" for ch
    by (cases ch) (simp_all add: logger_init_def)
  have c: "write_on ch m lg v = (Inr lg, v\<lparr>stderr := stderr v @ [not_open_line ch]\<rparr>) \<and>
      writeLine_on ch m lg v = (Inr lg, v\<lparr>stderr := stderr v @ [not_open_line ch]\<rparr>)"
    if "\<not> is_open (stream_of ch lg)" for ch m v
    using that
    by (cases "stream_of ch lg") (simp_all add: is_open_def writeLine_on_eq write_on_closed)
  have t: "\<exists>lg'. fst (do_calls cs lg v) = Inr lg' \<and>
      (\<forall>ch. target (stream_of ch lg') = target (stream_of ch lg) \<and>
            is_open (stream_of ch lg') = is_open (stream_of ch lg))" for cs v
    using do_calls_targets [of cs lg v] by (auto simp: is_open_target)
  have d0: "Logger_destroy logger_init v = (Inr logger_init, v)" for v
    by (simp add: Logger_destroy_eq) (simp add: logger_init_def)
  have d1: "fst (Logger_destroy lg v) = Inr logger_init \<and>
      clock (snd (Logger_destroy lg v)) = clock v \<and>
      stderr (snd (Logger_destroy lg v)) = stderr v \<and>
      cwd (snd (Logger_destroy lg v)) = cwd v \<and>
      locked (snd (Logger_destroy lg v)) = locked v" for v
    by (simp add: Logger_destroy_sel) (simp add: Logger_destroy_eq)
  have d2: "fsys (snd (Logger_destroy lg v)) q = fsys v q"
    if "\<forall>ch. target (stream_of ch lg) \<noteq> Some q" for v q
    using that by (rule Logger_destroy_other)
  have d3: "fsys (snd (Logger_destroy lg v)) p = Some (File (content @ buf))"
    if "stream_of ch lg = Some (p, buf) \<and> fsys v p = Some (File content) \<and>
         (\<forall>ch'. ch' \<noteq> ch \<longrightarrow> target (stream_of ch' lg) \<noteq> Some p)" for v ch p buf content
    using that Logger_destroy_own [of ch lg p buf v content] by blast
  have A: "\<forall>ch. is_open (stream_of ch (fst (createLogs dir logger_init w)))
           = openable (channel_path dir w ch) w"
    by (simp add: createLogs_is_open)
  have B: "\<forall>cs v. \<exists>lg'. fst (do_calls cs lg v) = Inr lg' \<and>
      (\<forall>ch. target (stream_of ch lg') = target (stream_of ch lg) \<and>
            is_open (stream_of ch lg') = is_open (stream_of ch lg))"
    using t by (intro allI)
  have C: "\<forall>v. fst (Logger_destroy lg v) = Inr logger_init \<and>
      clock (snd (Logger_destroy lg v)) = clock v \<and>
      stderr (snd (Logger_destroy lg v)) = stderr v \<and>
      cwd (snd (Logger_destroy lg v)) = cwd v \<and>
      locked (snd (Logger_destroy lg v)) = locked v \<and>
      (\<forall>q. (\<forall>ch. target (stream_of ch lg) \<noteq> Some q) \<longrightarrow>
         fsys (snd (Logger_destroy lg v)) q = fsys v q) \<and>
      (\<forall>ch p buf content.
         stream_of ch lg = Some (p, buf) \<and> fsys v p = Some (File content) \<and>
         (\<forall>ch'. ch' \<noteq> ch \<longrightarrow> target (stream_of ch' lg) \<noteq> Some p)
         \<longrightarrow> fsys (snd (Logger_destroy lg v)) p = Some (File (content @ buf)))"
  proof
    fix v
    from d1 [of v] have 1: "fst (Logger_destroy lg v) = Inr logger_init"
      and 2: "clock (snd (Logger_destroy lg v)) = clock v"
      and 3: "stderr (snd (Logger_destroy lg v)) = stderr v"
      and 4: "cwd (snd (Logger_destroy lg v)) = cwd v"
      and 5: "locked (snd (Logger_destroy lg v)) = locked v"
      by simp_all
    have 6: "\<forall>q. (\<forall>ch. target (stream_of ch lg) \<noteq> Some q) \<longrightarrow>
         fsys (snd (Logger_destroy lg v)) q = fsys v q"
      using d2 by (intro allI impI)
    have 7: "\<forall>ch p buf content.
         stream_of ch lg = Some (p, buf) \<and> fsys v p = Some (File content) \<and>
         (\<forall>ch'. ch' \<noteq> ch \<longrightarrow> target (stream_of ch' lg) \<noteq> Some p)
         \<longrightarrow> fsys (snd (Logger_destroy lg v)) p = Some (File (content @ buf))"
      using d3 by (intro allI impI)
    from 1 2 3 4 5 6 7
    show "fst (Logger_destroy lg v) = Inr logger_init \<and>
      clock (snd (Logger_destroy lg v)) = clock v \<and>
      stderr (snd (Logger_destroy lg v)) = stderr v \<and>
      cwd (snd (Logger_destroy lg v)) = cwd v \<and>
      locked (snd (Logger_destroy lg v)) = locked v \<and>
      (\<forall>q. (\<forall>ch. target (stream_of ch lg) \<noteq> Some q) \<longrightarrow>
         fsys (snd (Logger_destroy lg v)) q = fsys v q) \<and>
      (\<forall>ch p buf content.
         stream_of ch lg = Some (p, buf) \<and> fsys v p = Some (File content) \<and>
         (\<forall>ch'. ch' \<noteq> ch \<longrightarrow> target (stream_of ch' lg) \<noteq> Some p)
         \<longrightarrow> fsys (snd (Logger_destroy lg v)) p = Some (File (content @ buf)))"
      by (intro conjI)
  qed
  have D: "\<forall>v. Logger_destroy logger_init v = (Inr logger_init, v)"
    using d0 by (intro allI)
  have E: "\<forall>ch. stream_of ch logger_init = None"
    using i by (intro allI)
  have F: "\<forall>ch m v. \<not> is_open (stream_of ch lg) \<longrightarrow>
      write_on ch m lg v = (Inr lg, v\<lparr>stderr := stderr v @ [not_open_line ch]\<rparr>) \<and>
      writeLine_on ch m lg v = (Inr lg, v\<lparr>stderr := stderr v @ [not_open_line ch]\<rparr>)"
    using c by (intro allI impI)
  from A B C D E F show ?thesis by (intro conjI)
qed

theorem channel_lifecycle_witness:
  "\<not> is_open (stream_of Warning logger_pending) \<and>
   write_on Warning ''disk low'' logger_pending world_logged =
     (Inr logger_pending,
      world_logged\<lparr>stderr := stderr world_logged @ [''Error: warning log file is not open.'']\<rparr>) \<and>
   stream_of Info logger_pending
     = Some ([''home'', ''log'', ''2024-03-05.log''], ''14:07:09 disk low'' @ [CHR 0x0A]) \<and>
   fsys world_logged [''home'', ''log'', ''2024-03-05.log''] = Some (File ''old'') \<and>
   target (stream_of Warning logger_pending) \<noteq> Some [''home'', ''log'', ''2024-03-05.log''] \<and>
   target (stream_of Error logger_pending) \<noteq> Some [''home'', ''log'', ''2024-03-05.log''] \<and>
   fst (Logger_destroy logger_pending world_logged) = Inr logger_init \<and>
   fsys (snd (Logger_destroy logger_pending world_logged)) [''home'', ''log'', ''2024-03-05.log'']
     = Some (File (''old14:07:09 disk low'' @ [CHR 0x0A])) \<and>
   fsys (snd (Logger_destroy logger_pending world_logged)) [''home'', ''log'']
     = fsys world_logged [''home'', ''log''] \<and>
   \<not> is_open (stream_of Info logger_init) \<and>
   Logger_destroy logger_init world_logged = (Inr logger_init, world_logged)"
proof -
  define p where "p = [''home'', ''log'', ''2024-03-05.log'']"
  define buf where "buf = ''14:07:09 disk low'' @ [CHR 0x0A]"
  have n: "\<not> is_open (stream_of Warning logger_pending)"
    "\<not> is_open (stream_of Info logger_init)"
    by (simp_all add: logger_pending_def logger_info_only_def logger_init_def is_open_def)
  have s: "stream_of Info logger_pending = Some (p, buf)"
    by (simp add: logger_pending_def logger_info_only_def p_def buf_def)
  have f: "fsys world_logged p = Some (File ''old'')"
    by (simp add: fs_logged_def p_def)
  have o: "target (stream_of Warning logger_pending) \<noteq> Some p"
    "target (stream_of Error logger_pending) \<noteq> Some p"
    by (simp_all add: logger_pending_def logger_info_only_def)
  have d: "\<forall>ch'. ch' \<noteq> Info \<longrightarrow> target (stream_of ch' logger_pending) \<noteq> Some p"
  proof (intro allI impI)
    fix ch' :: channel assume "ch' \<noteq> Info"
    with o show "target (stream_of ch' logger_pending) \<noteq> Some p" by (cases ch') simp_all
  qed
  have q: "\<forall>ch. target (stream_of ch logger_pending) \<noteq> Some [''home'', ''log'']"
  proof
    fix ch show "target (stream_of ch logger_pending) \<noteq> Some [''home'', ''log'']"
      by (cases ch) (simp_all add: logger_pending_def logger_info_only_def)
  qed
  note l = channel_lifecycle [of "[]" world_logged logger_pending]
  from l have w: "\<forall>ch m v. \<not> is_open (stream_of ch logger_pending) \<longrightarrow>
      write_on ch m logger_pending v
        = (Inr logger_pending, v\<lparr>stderr := stderr v @ [not_open_line ch]\<rparr>) \<and>
      writeLine_on ch m logger_pending v
        = (Inr logger_pending, v\<lparr>stderr := stderr v @ [not_open_line ch]\<rparr>)"
    by (elim conjE)
  from w [rule_format, OF n(1), of "''disk low''" world_logged]
  have a: "write_on Warning ''disk low'' logger_pending world_logged =
     (Inr logger_pending,
      world_logged\<lparr>stderr := stderr world_logged @ [''Error: warning log file is not open.'']\<rparr>)"
    by simp
  from l have ds: "\<forall>v. fst (Logger_destroy logger_pending v) = Inr logger_init \<and>
      clock (snd (Logger_destroy logger_pending v)) = clock v \<and>
      stderr (snd (Logger_destroy logger_pending v)) = stderr v \<and>
      cwd (snd (Logger_destroy logger_pending v)) = cwd v \<and>
      locked (snd (Logger_destroy logger_pending v)) = locked v \<and>
      (\<forall>q. (\<forall>ch. target (stream_of ch logger_pending) \<noteq> Some q) \<longrightarrow>
         fsys (snd (Logger_destroy logger_pending v)) q = fsys v q) \<and>
      (\<forall>ch p buf content.
         stream_of ch logger_pending = Some (p, buf) \<and> fsys v p = Some (File content) \<and>
         (\<forall>ch'. ch' \<noteq> ch \<longrightarrow> target (stream_of ch' logger_pending) \<noteq> Some p)
         \<longrightarrow> fsys (snd (Logger_destroy logger_pending v)) p = Some (File (content @ buf)))"
    by (elim conjE)
  note dw = ds [rule_format, of world_logged]
  from dw have b1: "fst (Logger_destroy logger_pending world_logged) = Inr logger_init"
    by (rule conjunct1)
  from dw have "\<forall>q. (\<forall>ch. target (stream_of ch logger_pending) \<noteq> Some q) \<longrightarrow>
         fsys (snd (Logger_destroy logger_pending world_logged)) q = fsys world_logged q"
    by (elim conjE)
  from this [rule_format, OF q [rule_format]]
  have b2: "fsys (snd (Logger_destroy logger_pending world_logged)) [''home'', ''log'']
     = fsys world_logged [''home'', ''log'']" .
  from dw have "\<forall>ch p buf content.
         stream_of ch logger_pending = Some (p, buf) \<and> fsys world_logged p = Some (File content) \<and>
         (\<forall>ch'. ch' \<noteq> ch \<longrightarrow> target (stream_of ch' logger_pending) \<noteq> Some p)
         \<longrightarrow> fsys (snd (Logger_destroy logger_pending world_logged)) p = Some (File (content @ buf))"
    by (elim conjE)
  from this [rule_format, OF conjI [OF s conjI [OF f d]]]
  have b3: "fsys (snd (Logger_destroy logger_pending world_logged)) p
      = Some (File (''old14:07:09 disk low'' @ [CHR 0x0A]))"
    by (simp add: buf_def)
  from l have "\<forall>v. Logger_destroy logger_init v = (Inr logger_init, v)"
    by (elim conjE)
  then have b4: "Logger_destroy logger_init world_logged = (Inr logger_init, world_logged)"
    by (rule spec)
  from n a s f o b1 b2 b3 b4 show ?thesis
    unfolding p_def buf_def by (intro conjI)
qed

subsection \<open>TimeManager\<close>

text \<open>
  Claim C9, amended. For every clock reading within the ranges of \<^verbatim>\<open>struct tm\<close>,
  \<open>currentTimeFormatted\<close> returns a string of the pattern \<^verbatim>\<open>HH:MM:SS\<close>, and
  \<open>currentDateFormatted\<close> returns a string of the pattern \<^verbatim>\<open>YYYY-MM-DD\<close> when the year
  has four digits (1000 to 9999). Both leave the world as it is but for the position of
  the clock, and what they return depends on the reading alone.
\<close>

theorem time_strings_match_patterns:
  assumes "tm_in_range (shd (clock w))"
  shows "matches_pattern ''HH:MM:SS'' (fst (currentTimeFormatted w)) \<and>
     (1000 \<le> tm_year (shd (clock w)) + 1900 \<and> tm_year (shd (clock w)) + 1900 \<le> 9999 \<longrightarrow>
        matches_pattern ''YYYY-MM-DD'' (fst (currentDateFormatted w))) \<and>
     snd (currentTimeFormatted w) = w\<lparr>clock := stl (clock w)\<rparr> \<and>
     snd (currentDateFormatted w) = w\<lparr>clock := stl (clock w)\<rparr> \<and>
     (\<forall>v. shd (clock v) = shd (clock w) \<longrightarrow>
        fst (currentDateFormatted v) = fst (currentDateFormatted w) \<and>
        fst (currentTimeFormatted v) = fst (currentTimeFormatted w))"
  using time_matches [OF assms] date_matches [OF assms]
  by (simp add: read_time read_date del: strftime.simps)

theorem time_strings_match_patterns_witness:
  "tm_in_range (shd (clock world_example)) \<and>
   1000 \<le> tm_year (shd (clock world_example)) + 1900 \<and>
   tm_year (shd (clock world_example)) + 1900 \<le> 9999 \<and>
   fst (currentTimeFormatted world_example) = ''14:07:09'' \<and>
   matches_pattern ''HH:MM:SS'' ''14:07:09'' \<and>
   fst (currentDateFormatted world_example) = ''2024-03-05'' \<and>
   matches_pattern ''YYYY-MM-DD'' ''2024-03-05''"
proof -
  have r: "tm_in_range (shd (clock world_example))"
    by (simp add: tm_in_range_def tm_example_def)
  have y1: "1000 \<le> tm_year (shd (clock world_example)) + 1900"
    and y2: "tm_year (shd (clock world_example)) + 1900 \<le> 9999"
    by (simp_all add: tm_example_def)
  have t: "fst (currentTimeFormatted world_example) = ''14:07:09''"
    by (simp add: read_time time_example del: strftime.simps)
  have d: "fst (currentDateFormatted world_example) = ''2024-03-05''"
    by (simp add: read_date date_example del: strftime.simps)
  note s = time_strings_match_patterns [OF r]
  from s have m1: "matches_pattern ''HH:MM:SS'' (fst (currentTimeFormatted world_example))"
    by (rule conjunct1)
  from s have "1000 \<le> tm_year (shd (clock world_example)) + 1900 \<and>
      tm_year (shd (clock world_example)) + 1900 \<le> 9999 \<longrightarrow>
      matches_pattern ''YYYY-MM-DD'' (fst (currentDateFormatted world_example))"
    by (elim conjE)
  from this [rule_format, OF conjI [OF y1 y2]]
  have m2: "matches_pattern ''YYYY-MM-DD'' (fst (currentDateFormatted world_example))" .
  from r y1 y2 t d m1 [unfolded t] m2 [unfolded d] show ?thesis
    by (intro conjI)
qed

text \<open>
  As claim C9 is written, \<open>currentDateFormatted\<close> matches \<^verbatim>\<open>YYYY-MM-DD\<close> at every
  instant. That fails: \<^verbatim>\<open>%Y\<close> writes the year as a decimal number, and in the year
  10000 it has five digits.
\<close>

theorem date_pattern_counterexample:
  "tm_in_range (shd (clock world_year_10000)) \<and>
   fst (currentDateFormatted world_year_10000) = ''10000-01-01'' \<and>
   \<not> matches_pattern ''YYYY-MM-DD'' (fst (currentDateFormatted world_year_10000))"
proof -
  have c: "shd (clock world_year_10000) = tm_year_10000"
    by (simp add: world_year_10000_def)
  have d: "strftime ''%Y-%m-%d'' tm_year_10000 = ''10000-01-01''"
    by (simp add: tm_year_10000_def conversion_def pad2_def dec_int_def dec_nat.simps
        digit_char_def)
  have r: "tm_in_range tm_year_10000"
    by (simp add: tm_in_range_def tm_year_10000_def)
  have "\<not> matches_pattern ''YYYY-MM-DD'' ''10000-01-01''"
    by (simp add: is_digit_def)
  with c d r show ?thesis
    by (simp add: read_date del: strftime.simps)
qed

end
